theory Spec2Isabelle
  imports Complex_Main "HOL-Library.Sublist"
begin

section \<open>JavaScript values and strings\<close>

text \<open>
  Values of TypeScript type \<^verbatim>\<open>unknown\<close> (parsed JSON bodies, attribute bags, relationship
  metadata). \<open>JUndefined\<close> is what reading a missing property yields. An object is its list
  of entries; reading a key takes the first entry with that key. Numbers are reals: NaN
  and the infinities, which JSON text cannot denote, are left out.
\<close>

datatype json =
    JUndefined
  | JNull
  | JBool bool
  | JNum real
  | JStr string
  | JArr "json list"
  | JObj "(string \<times> json) list"

text \<open>\<^verbatim>\<open>!!v\<close>: the falsy values are undefined, null, false, 0 and the empty string.\<close>

fun truthy :: "json \<Rightarrow> bool" where
  "truthy JUndefined = False"
| "truthy JNull = False"
| "truthy (JBool b) = b"
| "truthy (JNum n) = (n \<noteq> 0)"
| "truthy (JStr s) = (s \<noteq> [])"
| "truthy (JArr xs) = True"
| "truthy (JObj kvs) = True"

text \<open>\<^verbatim>\<open>typeof v === "object"\<close>: null, arrays and objects.\<close>

fun typeof_object :: "json \<Rightarrow> bool" where
  "typeof_object JNull = True"
| "typeof_object (JArr xs) = True"
| "typeof_object (JObj kvs) = True"
| "typeof_object v = False"

text \<open>
  \<^verbatim>\<open>v.k\<close> and \<^verbatim>\<open>v?.k\<close> for a key \<open>k\<close> that is neither an array index, \<^verbatim>\<open>length\<close> nor a
  prototype member (every key the program reads is such a key): the entry of an object,
  undefined on anything else. On null and undefined \<^verbatim>\<open>v.k\<close> throws; the program reads
  those only through \<^verbatim>\<open>?.\<close> or behind a guard.
\<close>

fun getProp :: "json \<Rightarrow> string \<Rightarrow> json" where
  "getProp (JObj kvs) k = (case map_of kvs k of Some v \<Rightarrow> v | None \<Rightarrow> JUndefined)"
| "getProp v k = JUndefined"

text \<open>\<^verbatim>\<open>a || b\<close> on values.\<close>

definition js_or :: "json \<Rightarrow> json \<Rightarrow> json" where
  "js_or a b = (if truthy a then a else b)"

text \<open>
  Strings are lists of code units; a \<^typ>\<open>char\<close> stands for a code unit below 256. In that
  range the white space of \<^verbatim>\<open>String.prototype.trim\<close> and of the regular expression class
  \<^verbatim>\<open>\s\<close> is tab, line feed, vertical tab, form feed, carriage return, space and the
  no-break space.
\<close>

definition whitespace :: "char \<Rightarrow> bool" where
  "whitespace c = (c \<in> set [CHR 0x09, CHR 0x0A, CHR 0x0B, CHR 0x0C, CHR 0x0D, CHR 0x20, CHR 0xA0])"

definition trim :: "string \<Rightarrow> string" where
  "trim s = rev (dropWhile whitespace (rev (dropWhile whitespace s)))"

text \<open>\<^verbatim>\<open>s.startsWith(p)\<close>.\<close>

definition startsWith :: "string \<Rightarrow> string \<Rightarrow> bool" where
  "startsWith s p = prefix p s"

section \<open>routes.ts: normalising one item of the routes feed\<close>

datatype route_kind = Entity | View

text \<open>
  \<^verbatim>\<open>RoutesFeedItem\<close> of types.ts: \<open>None\<close> in a URL field is the JavaScript null.
\<close>

record RoutesFeedItem =
  path :: string
  kind :: route_kind
  jsonapi_url :: "string option"
  data_url :: "string option"

definition normalizeRoutesItem :: "json \<Rightarrow> RoutesFeedItem option" where
  "normalizeRoutesItem v =
    (if \<not> truthy v \<or> \<not> typeof_object v then None
     else
       let pathv = getProp v ''path'';
           kindv = getProp v ''kind'';
           jsonapiv = getProp v ''jsonapi_url'';
           datav = getProp v ''data_url''
       in
       (case pathv of
          JStr p \<Rightarrow>
            if trim p = [] \<or> \<not> startsWith p ''/'' then None
            else if kindv \<noteq> JStr ''entity'' \<and> kindv \<noteq> JStr ''view'' then None
            else if kindv = JStr ''entity'' then
              (case jsonapiv of
                 JStr u \<Rightarrow>
                   if trim u = [] then None
                   else if datav \<noteq> JNull then None
                   else Some \<lparr>path = p, kind = Entity, jsonapi_url = Some u, data_url = None\<rparr>
               | _ \<Rightarrow> None)
            else if kindv = JStr ''view'' then
              (case datav of
                 JStr u \<Rightarrow>
                   if trim u = [] then None
                   else if jsonapiv \<noteq> JNull then None
                   else Some \<lparr>path = p, kind = View, jsonapi_url = None, data_url = Some u\<rparr>
               | _ \<Rightarrow> None)
            else None
        | _ \<Rightarrow> None))"

text \<open>
  The acceptance condition in the words of the specification: \<open>path\<close> is a non-empty
  string starting with a slash, and exactly one of the two URLs is a non-empty string,
  the one that goes with the kind, the other being absent or null.
\<close>

definition absent_or_null :: "json \<Rightarrow> bool" where
  "absent_or_null v = (v = JUndefined \<or> v = JNull)"

definition nonempty_string :: "json \<Rightarrow> bool" where
  "nonempty_string v = (case v of JStr s \<Rightarrow> s \<noteq> [] | _ \<Rightarrow> False)"

definition spec_accepts_route :: "json \<Rightarrow> bool" where
  "spec_accepts_route v =
    ((case getProp v ''path'' of JStr p \<Rightarrow> p \<noteq> [] \<and> startsWith p ''/'' | _ \<Rightarrow> False) \<and>
     ((getProp v ''kind'' = JStr ''entity'' \<and> nonempty_string (getProp v ''jsonapi_url'')
         \<and> absent_or_null (getProp v ''data_url'')) \<or>
      (getProp v ''kind'' = JStr ''view'' \<and> nonempty_string (getProp v ''data_url'')
         \<and> absent_or_null (getProp v ''jsonapi_url''))))"

section \<open>routes.ts: the origin guard, one page, the pagination loop\<close>

text \<open>
  What the program reads of a \<^verbatim>\<open>URL\<close> object of the platform: its origin, its protocol,
  and the path and query parameters that make up the string handed to the fetcher.
\<close>

record URL =
  origin :: string
  protocol :: string
  pathname :: string
  searchParams :: "(string \<times> string) list"

text \<open>
  The errors the program throws. It throws plain \<^verbatim>\<open>Error\<close> objects told apart by their
  message; the constructors carry the names the specification gives them and the values
  the messages interpolate. \<open>TypeError\<close> is what the platform throws (an unparsable URL,
  a method called on a value that has none); \<open>TransportError\<close> is a rejected fetch or a
  body that is not JSON; \<open>ConfigError\<close> is the specification's name for what
  \<^verbatim>\<open>getDrupalBaseUrlFromOptions\<close> of transport.ts throws when no base URL is configured.
\<close>

datatype error =
    TypeError
  | TransportError
  | OriginMismatchError string string
  | UnsupportedSchemeError string
  | FeedRequestError int string
  | FeedFormatError
  | PaginationOverrunError int
  | ConfigError

record response =
  ok :: bool
  status :: int
  statusText :: string
  body :: "json option"

text \<open>
  The platform and the transport, which are not part of the repository's sources, are
  parameters: \<open>newURL s\<close> is \<^verbatim>\<open>new URL(s)\<close> and \<open>newURL_base s b\<close> is \<^verbatim>\<open>new URL(s, b)\<close>
  (\<open>None\<close> when the constructor throws), \<open>fetcher\<close> answers a request (\<open>None\<close> when the
  promise rejects; \<open>body = None\<close> when \<^verbatim>\<open>res.json()\<close> rejects). Request headers and the
  cache directive do not influence what the functions below return and are left out.
\<close>

record platform =
  newURL :: "string \<Rightarrow> URL option"
  newURL_base :: "string \<Rightarrow> URL \<Rightarrow> URL option"
  fetcher :: "URL \<Rightarrow> response option"

text \<open>
  The options of \<^verbatim>\<open>fetchRoutesPage\<close> and \<^verbatim>\<open>iterateRoutes\<close>. \<open>baseUrl\<close> is the string that
  \<^verbatim>\<open>getDrupalBaseUrlFromOptions\<close> (transport.ts) returns; \<open>opt_url\<close> is \<^verbatim>\<open>options.url\<close>.
  \<open>limit\<close> and \<open>maxPages\<close> are taken to be integers.
\<close>

record options =
  baseUrl :: string
  langcode :: "string option"
  limit :: "int option"
  opt_url :: "string option"
  maxPages :: "int option"

record RoutesFeedResponse =
  data :: "RoutesFeedItem list"
  links_self :: "string option"
  links_next :: "string option"
  meta :: json

definition buildRoutesUrl :: "platform \<Rightarrow> string \<Rightarrow> string \<Rightarrow> error + URL" where
  "buildRoutesUrl pf input base =
    (case newURL pf base of
       None \<Rightarrow> Inl TypeError
     | Some b \<Rightarrow>
        (case newURL_base pf input b of
           None \<Rightarrow> Inl TypeError
         | Some u \<Rightarrow>
             if origin u \<noteq> origin b then Inl (OriginMismatchError (origin u) (origin b))
             else if protocol u \<noteq> ''http:'' \<and> protocol u \<noteq> ''https:''
               then Inl (UnsupportedSchemeError (protocol u))
             else Inr u))"

definition getNextLink :: "json \<Rightarrow> string option" where
  "getNextLink links =
    (if \<not> truthy links \<or> \<not> typeof_object links then None
     else (case getProp links ''next'' of
             JStr n \<Rightarrow> if trim n \<noteq> [] then Some n else None
           | _ \<Rightarrow> None))"

text \<open>\<^verbatim>\<open>URLSearchParams.set\<close>: the first entry of the key takes the value, its other entries
  go; a new key is appended.\<close>

fun params_set :: "string \<Rightarrow> string \<Rightarrow> (string \<times> string) list \<Rightarrow> (string \<times> string) list" where
  "params_set k v [] = [(k, v)]"
| "params_set k v ((k', v') # ps) =
    (if k' = k then (k, v) # filter (\<lambda>e. fst e \<noteq> k) ps else (k', v') # params_set k v ps)"

text \<open>\<^verbatim>\<open>String(n)\<close> for an integer \<open>n\<close>.\<close>

fun digits :: "nat \<Rightarrow> string" where
  "digits n =
    (if n < 10 then [''0123456789'' ! n] else digits (n div 10) @ [''0123456789'' ! (n mod 10)])"

declare digits.simps [simp del]

definition String_of_int :: "int \<Rightarrow> string" where
  "String_of_int i = (if i < 0 then ''-'' @ digits (nat (- i)) else digits (nat i))"

text \<open>Lines 89 to 97 of \<^verbatim>\<open>fetchRoutesPage\<close>: the URL of a first request.\<close>

definition firstRoutesUrl :: "platform \<Rightarrow> options \<Rightarrow> error + URL" where
  "firstRoutesUrl pf opts =
    (case buildRoutesUrl pf ''/jsonapi/routes'' (baseUrl opts) of
       Inl e \<Rightarrow> Inl e
     | Inr u \<Rightarrow>
         let p1 = params_set ''_format'' ''json'' (searchParams u);
             p2 = params_set ''page[limit]''
                    (String_of_int (case limit opts of Some l \<Rightarrow> l | None \<Rightarrow> 50)) p1;
             p3 = (case langcode opts of
                     Some l \<Rightarrow> if l \<noteq> [] then params_set ''langcode'' l p2 else p2
                   | None \<Rightarrow> p2)
         in Inr (u\<lparr>searchParams := p3\<rparr>))"

text \<open>Lines 87 to 97: \<^verbatim>\<open>options.url\<close>, when it is a non-empty string, goes through the
  guard and is fetched as it is.\<close>

definition routesRequestUrl :: "platform \<Rightarrow> options \<Rightarrow> error + URL" where
  "routesRequestUrl pf opts =
    (case opt_url opts of
       Some u \<Rightarrow> if u \<noteq> [] then buildRoutesUrl pf u (baseUrl opts) else firstRoutesUrl pf opts
     | None \<Rightarrow> firstRoutesUrl pf opts)"

text \<open>Lines 126 to 144 of \<^verbatim>\<open>fetchRoutesPage\<close>: from the parsed body to the page.\<close>

definition routesPageOfDoc :: "json \<Rightarrow> error + RoutesFeedResponse" where
  "routesPageOfDoc doc =
    (if \<not> truthy doc \<or> \<not> typeof_object doc then Inl FeedFormatError
     else
       let rawItems = (case getProp doc ''data'' of JArr xs \<Rightarrow> xs | _ \<Rightarrow> []);
           items = List.map_filter normalizeRoutesItem rawItems;
           links = getProp doc ''links'';
           metav = getProp doc ''meta''
       in Inr \<lparr>data = items,
               links_self = (case getProp links ''self'' of JStr s \<Rightarrow> Some s | _ \<Rightarrow> None),
               links_next = getNextLink links,
               meta = (if truthy metav \<and> typeof_object metav then metav else JUndefined)\<rparr>)"

text \<open>
  \<^verbatim>\<open>fetchRoutesPage\<close>: the result, or the error thrown, together with the requests that
  were handed to the fetcher (none or one).
\<close>

definition fetchRoutesPage :: "platform \<Rightarrow> options \<Rightarrow> (error + RoutesFeedResponse) \<times> URL list" where
  "fetchRoutesPage pf opts =
    (case routesRequestUrl pf opts of
       Inl e \<Rightarrow> (Inl e, [])
     | Inr u \<Rightarrow>
        (case fetcher pf u of
           None \<Rightarrow> (Inl TransportError, [u])
         | Some res \<Rightarrow>
             if \<not> ok res then (Inl (FeedRequestError (status res) (statusText res)), [u])
             else (case body res of
                     None \<Rightarrow> (Inl TransportError, [u])
                   | Some doc \<Rightarrow> (routesPageOfDoc doc, [u]))))"

text \<open>
  The loop of \<^verbatim>\<open>iterateRoutes\<close> from counter \<open>i\<close> and cursor \<open>pageUrl\<close>: the items yielded,
  how the generator ends (\<open>None\<close>: it returns; \<open>Some e\<close>: it throws \<open>e\<close>), and the requests
  issued, in order.
\<close>

function iterateLoop ::
  "platform \<Rightarrow> options \<Rightarrow> int \<Rightarrow> int \<Rightarrow> string option
     \<Rightarrow> RoutesFeedItem list \<times> error option \<times> URL list" where
  "iterateLoop pf opts maxP i pageUrl =
    (if i < maxP then
       (case fetchRoutesPage pf (opts\<lparr>opt_url := pageUrl\<rparr>) of
          (Inl e, reqs) \<Rightarrow> ([], Some e, reqs)
        | (Inr page, reqs) \<Rightarrow>
            (case links_next page of
               None \<Rightarrow> (data page, None, reqs)
             | Some next \<Rightarrow>
                 if next = [] then (data page, None, reqs)
                 else (case iterateLoop pf opts maxP (i + 1) (Some next) of
                         (items, r, reqs') \<Rightarrow> (data page @ items, r, reqs @ reqs'))))
     else ([], Some (PaginationOverrunError maxP), []))"
  by pat_completeness auto
termination
  by (relation "measure (\<lambda>(pf, opts, maxP, i, pageUrl). nat (maxP - i))") auto

declare iterateLoop.simps [simp del]

definition iterateRoutes ::
  "platform \<Rightarrow> options \<Rightarrow> RoutesFeedItem list \<times> error option \<times> URL list" where
  "iterateRoutes pf opts =
    iterateLoop pf opts (case maxPages opts of Some m \<Rightarrow> m | None \<Rightarrow> 10000) 0 None"

definition collectRoutes :: "platform \<Rightarrow> options \<Rightarrow> (error + RoutesFeedItem list) \<times> URL list" where
  "collectRoutes pf opts =
    (case iterateRoutes pf opts of
       (items, None, reqs) \<Rightarrow> (Inr items, reqs)
     | (items, Some e, reqs) \<Rightarrow> (Inl e, reqs))"

section \<open>String search and replacement\<close>

text \<open>The first index at which \<open>pat\<close> occurs in \<open>s\<close>.\<close>

fun find_sub :: "string \<Rightarrow> string \<Rightarrow> nat option" where
  "find_sub pat [] = (if pat = [] then Some 0 else None)"
| "find_sub pat (c # cs) =
    (if prefix pat (c # cs) then Some 0 else map_option Suc (find_sub pat cs))"

text \<open>\<^verbatim>\<open>s.indexOf(pat, from)\<close>; \<open>None\<close> is the result \<^verbatim>\<open>-1\<close>.\<close>

definition indexOf :: "string \<Rightarrow> string \<Rightarrow> nat \<Rightarrow> nat option" where
  "indexOf s pat from =
    (let k = min from (length s) in map_option (\<lambda>i. k + i) (find_sub pat (drop k s)))"


text \<open>\<^verbatim>\<open>s.slice(a, b)\<close> and \<^verbatim>\<open>s.slice(a)\<close> for indices that are not negative.\<close>

definition slice :: "string \<Rightarrow> nat \<Rightarrow> nat \<Rightarrow> string" where
  "slice s a b = take (b - a) (drop a s)"


text \<open>
  The replacement text of \<^verbatim>\<open>String.prototype.replace\<close> for a pattern without capture groups
  (GetSubstitution of ECMAScript): in the template, \<^verbatim>\<open>$$\<close> is a dollar sign, \<^verbatim>\<open>$&\<close> the
  matched text, a dollar sign with a backquote the text before the match, a dollar sign
  with a quote the text after it; every other character stands for itself.
\<close>

fun getSubstitution :: "string \<Rightarrow> string \<Rightarrow> string \<Rightarrow> string \<Rightarrow> string" where
  "getSubstitution matched preceding following [] = []"
| "getSubstitution matched preceding following [c] = [c]"
| "getSubstitution matched preceding following (c # d # t) =
    (if c = CHR ''$'' then
       (if d = CHR ''$'' then CHR ''$'' # getSubstitution matched preceding following t
        else if d = CHR ''&'' then matched @ getSubstitution matched preceding following t
        else if d = CHR 0x60 then preceding @ getSubstitution matched preceding following t
        else if d = CHR 0x27 then following @ getSubstitution matched preceding following t
        else c # getSubstitution matched preceding following (d # t))
     else c # getSubstitution matched preceding following (d # t))"

text \<open>\<^verbatim>\<open>s.replace(pat, template)\<close> for a string pattern: the first occurrence is replaced.\<close>

definition replace_string :: "string \<Rightarrow> string \<Rightarrow> string \<Rightarrow> string" where
  "replace_string s pat template =
    (case find_sub pat s of
       None \<Rightarrow> s
     | Some i \<Rightarrow>
         take i s
         @ getSubstitution pat (take i s) (drop (i + length pat) s) template
         @ drop (i + length pat) s)"

text \<open>
  A regular expression without the global flag is given by its anchored matcher: what
  the expression matches at the start of a text, if anything. The search takes the
  leftmost position at which the matcher succeeds.
\<close>

fun regex_search :: "(string \<Rightarrow> 'a option) \<Rightarrow> string \<Rightarrow> (nat \<times> 'a) option" where
  "regex_search m [] = map_option (Pair 0) (m [])"
| "regex_search m (c # cs) =
    (case m (c # cs) of
       Some r \<Rightarrow> Some (0, r)
     | None \<Rightarrow> map_option (\<lambda>(i, r). (Suc i, r)) (regex_search m cs))"

section \<open>url.ts\<close>

text \<open>
  \<^verbatim>\<open>resolveFileUrl(url, options)\<close> on an argument of its declared type: \<open>None\<close> is null or
  undefined. \<open>base\<close> is the string that \<^verbatim>\<open>getDrupalBaseUrlFromOptions(options)\<close> returns.
\<close>

definition resolveFileUrl :: "string \<Rightarrow> string option \<Rightarrow> string option" where
  "resolveFileUrl base url =
    (case url of
       None \<Rightarrow> None
     | Some u \<Rightarrow>
         if u = [] then None
         else if startsWith u ''http://'' \<or> startsWith u ''https://'' then Some u
         else if startsWith u ''data:'' then Some u
         else if startsWith u ''//'' then Some (''https:'' @ u)
         else
           let p = (if startsWith u ''/'' then u else ''/'' @ u)
           in Some (base @ p))"

text \<open>
  \<^verbatim>\<open>resolveFileUrl\<close> as \<^verbatim>\<open>getFileUrl\<close> calls it, on a value read from an attribute bag and
  with a base URL that may not be configured. \<open>cfg\<close> is the outcome of the call
  \<^verbatim>\<open>getDrupalBaseUrlFromOptions(options)\<close> of line 35, which is made in the last branch
  only: \<open>Inr base\<close> when it returns the base, \<open>Inl e\<close> when it throws \<open>e\<close>. A falsy value
  gives null; on a truthy value that is not a string, \<^verbatim>\<open>url.startsWith\<close> is not a function
  and the call throws.
\<close>

definition resolveFileUrl_value :: "error + string \<Rightarrow> json \<Rightarrow> error + string option" where
  "resolveFileUrl_value cfg v =
    (if \<not> truthy v then Inr None
     else
       (case v of
          JStr u \<Rightarrow>
            if startsWith u ''http://'' \<or> startsWith u ''https://'' then Inr (Some u)
            else if startsWith u ''data:'' then Inr (Some u)
            else if startsWith u ''//'' then Inr (Some (''https:'' @ u))
            else
              (case cfg of
                 Inl e \<Rightarrow> Inl e
               | Inr base \<Rightarrow>
                   let p = (if startsWith u ''/'' then u else ''/'' @ u)
                   in Inr (Some (base @ p)))
        | _ \<Rightarrow> Inl TypeError))"



section \<open>media.ts\<close>

text \<open>
  A resource reference \<^verbatim>\<open>{type, id}\<close> with the \<^verbatim>\<open>meta\<close> member the program reads through a
  cast (undefined when absent).
\<close>

record reference =
  ref_type :: string
  ref_id :: string
  ref_meta :: json

text \<open>The \<^verbatim>\<open>data\<close> member of a \<^verbatim>\<open>JsonApiRelationship\<close>: null (or missing), one reference, or
  an array of references. The \<^verbatim>\<open>links\<close> member is not read.\<close>

datatype JsonApiRelationship =
    RelNull
  | RelOne reference
  | RelMany "reference list"

text \<open>\<^verbatim>\<open>JsonApiResource\<close> of types.ts; \<open>None\<close> is an absent member. \<^verbatim>\<open>links\<close> is not read.\<close>

record JsonApiResource =
  res_type :: string
  res_id :: string
  attributes :: "(string \<times> json) list option"
  relationships :: "(string \<times> JsonApiRelationship) list option"

text \<open>\<^verbatim>\<open>attrs?.[k]\<close> and \<^verbatim>\<open>relationships?.[k]\<close>.\<close>

definition attr :: "JsonApiResource \<Rightarrow> string \<Rightarrow> json" where
  "attr r k = (case attributes r of None \<Rightarrow> JUndefined | Some kvs \<Rightarrow> getProp (JObj kvs) k)"

definition relationship :: "JsonApiResource \<Rightarrow> string \<Rightarrow> JsonApiRelationship option" where
  "relationship r k = (case relationships r of None \<Rightarrow> None | Some rs \<Rightarrow> map_of rs k)"

record DrupalImageData =
  src :: string
  alt :: json
  width :: json
  height :: json
  title :: json

datatype media_type =
  MediaImage | MediaVideo | MediaFile | MediaRemoteVideo | MediaAudio | MediaUnknown

text \<open>
  \<^verbatim>\<open>DrupalMediaData\<close>. \<open>mtype\<close> is its \<^verbatim>\<open>type\<close>, \<open>image_data\<close> its \<^verbatim>\<open>image\<close>; \<open>None\<close> is
  null in \<open>url\<close> and an unset member in \<open>image_data\<close> and \<open>embedUrl\<close>; an unset
  \<open>mimeType\<close> is \<open>JUndefined\<close>.
\<close>

record DrupalMediaData =
  mtype :: media_type
  name :: json
  url :: "string option"
  image_data :: "DrupalImageData option"
  mimeType :: json
  embedUrl :: "string option"
  resource :: JsonApiResource

text \<open>
  The expression \<^verbatim>\<open>file.attributes.uri?.url || file.attributes.uri?.value ||
  file.attributes.url\<close> of \<^verbatim>\<open>getFileUrl\<close> (url.ts), on the entries of the attribute bag.
  In \<^verbatim>\<open>getFileUrl\<close> and in the functions of media.ts that call it, \<open>cfg\<close> is again the
  outcome of \<^verbatim>\<open>getDrupalBaseUrlFromOptions\<close>: the base, or the error thrown when none is
  configured. media.ts calls \<^verbatim>\<open>getFileUrl(file)\<close> without options, so there it is the
  outcome for the default configuration.
\<close>

definition fileUrlAttribute :: "(string \<times> json) list \<Rightarrow> json" where
  "fileUrlAttribute kvs =
    (let uri = getProp (JObj kvs) ''uri''
     in js_or (getProp uri ''url'') (js_or (getProp uri ''value'') (getProp (JObj kvs) ''url'')))"

definition getFileUrl ::
  "error + string \<Rightarrow> JsonApiResource option \<Rightarrow> error + string option" where
  "getFileUrl cfg file =
    (case file of
       None \<Rightarrow> Inr None
     | Some f \<Rightarrow>
        (case attributes f of
           None \<Rightarrow> Inr None
         | Some kvs \<Rightarrow> resolveFileUrl_value cfg (fileUrlAttribute kvs)))"

definition findIncluded ::
  "JsonApiResource list option \<Rightarrow> string \<Rightarrow> string \<Rightarrow> JsonApiResource option" where
  "findIncluded included t i =
    (case included of
       None \<Rightarrow> None
     | Some xs \<Rightarrow> find (\<lambda>item. res_type item = t \<and> res_id item = i) xs)"

definition findIncludedByRelationship ::
  "JsonApiResource list option \<Rightarrow> JsonApiRelationship option \<Rightarrow> JsonApiResource option" where
  "findIncludedByRelationship included rel =
    (case rel of
       Some (RelOne r) \<Rightarrow> findIncluded included (ref_type r) (ref_id r)
     | _ \<Rightarrow> None)"

definition extractImageFromFile ::
  "error + string \<Rightarrow> JsonApiResource option \<Rightarrow> error + DrupalImageData option" where
  "extractImageFromFile cfg file =
    (case file of
       None \<Rightarrow> Inr None
     | Some f \<Rightarrow>
        (case getFileUrl cfg (Some f) of
           Inl e \<Rightarrow> Inl e
         | Inr None \<Rightarrow> Inr None
         | Inr (Some u) \<Rightarrow>
             if u = [] then Inr None
             else Inr (Some
               \<lparr>src = u,
                alt = js_or (attr f ''filename'') (JStr []),
                width = (if truthy (attr f ''image_style_uri'') then JUndefined else attr f ''width''),
                height = (if truthy (attr f ''image_style_uri'') then JUndefined else attr f ''height''),
                title = JUndefined\<rparr>)))"

definition getRelationshipMetaString :: "JsonApiRelationship option \<Rightarrow> string \<Rightarrow> string option" where
  "getRelationshipMetaString rel key =
    (case rel of
       Some (RelOne r) \<Rightarrow>
         (case getProp (ref_meta r) key of
            JStr v \<Rightarrow> if trim v \<noteq> [] then Some v else None
          | _ \<Rightarrow> None)
     | _ \<Rightarrow> None)"


text \<open>A string or undefined, as a value.\<close>

definition string_or_undefined :: "string option \<Rightarrow> json" where
  "string_or_undefined x = (case x of Some v \<Rightarrow> JStr v | None \<Rightarrow> JUndefined)"

text \<open>
  The two regular expressions of \<^verbatim>\<open>getVideoEmbedUrl\<close>, as anchored matchers that return
  the captured group. Each expression ends with its group, a greedy run of at least one
  character of a class, so the group is the longest such run.
\<close>

definition id_char :: "char \<Rightarrow> bool" where
  "id_char c =
    (c \<in> set ''abcdefghijklmnopqrstuvwxyzABCDEFGHIJKLMNOPQRSTUVWXYZ0123456789_-'')"

definition digit_char :: "char \<Rightarrow> bool" where
  "digit_char c = (c \<in> set ''0123456789'')"

definition capture_run :: "(char \<Rightarrow> bool) \<Rightarrow> string \<Rightarrow> string option" where
  "capture_run P s = (let r = takeWhile P s in if r = [] then None else Some r)"

fun prefixed_run :: "(char \<Rightarrow> bool) \<Rightarrow> string list \<Rightarrow> string \<Rightarrow> string option" where
  "prefixed_run P [] s = None"
| "prefixed_run P (p # ps) s =
    (case (if prefix p s then capture_run P (drop (length p) s) else None) of
       Some r \<Rightarrow> Some r
     | None \<Rightarrow> prefixed_run P ps s)"

text \<open>\<^verbatim>\<open>/(?:youtube\.com\/(?:watch\?v=|embed\/)|youtu\.be\/)([a-zA-Z0-9_-]+)/\<close>\<close>

definition youtube_match :: "string \<Rightarrow> string option" where
  "youtube_match s =
    prefixed_run id_char [''youtube.com/watch?v='', ''youtube.com/embed/'', ''youtu.be/''] s"

text \<open>\<^verbatim>\<open>/vimeo\.com\/(\d+)/\<close>\<close>

definition vimeo_match :: "string \<Rightarrow> string option" where
  "vimeo_match s = prefixed_run digit_char [''vimeo.com/''] s"

definition getVideoEmbedUrl :: "string \<Rightarrow> string option" where
  "getVideoEmbedUrl u =
    (case regex_search youtube_match u of
       Some (i, v) \<Rightarrow> Some (''https://www.youtube.com/embed/'' @ v)
     | None \<Rightarrow>
        (case regex_search vimeo_match u of
           Some (i, v) \<Rightarrow> Some (''https://player.vimeo.com/video/'' @ v)
         | None \<Rightarrow> None))"

text \<open>
  \<^verbatim>\<open>extractMedia\<close>: \<open>Inr None\<close> is the result null, \<open>Inl e\<close> the error thrown. A remote
  video whose \<^verbatim>\<open>field_media_oembed_video\<close> is truthy and not a string makes
  \<^verbatim>\<open>getVideoEmbedUrl\<close> call \<^verbatim>\<open>url.match\<close> on a value that has no such method. The function
  takes no options: \<open>cfg\<close> is the outcome of \<^verbatim>\<open>getDrupalBaseUrlFromOptions(undefined)\<close>, which
  the calls \<^verbatim>\<open>getFileUrl(file)\<close> reach when the URL of the file is a relative path.
\<close>

definition extractMedia ::
  "error + string \<Rightarrow> JsonApiResource option \<Rightarrow> JsonApiResource list option
     \<Rightarrow> error + DrupalMediaData option" where
  "extractMedia cfg media included =
    (case media of
       None \<Rightarrow> Inr None
     | Some m \<Rightarrow>
        let nm = js_or (attr m ''name'') (JStr []);
            mediaType = replace_string (res_type m) ''media--'' [];
            result = \<lparr>mtype = MediaUnknown, name = nm, url = None, image_data = None,
                      mimeType = JUndefined, embedUrl = None, resource = m\<rparr>
        in
        if mediaType = ''image'' then
          (let fileRelationship = relationship m ''field_media_image'' in
           case findIncludedByRelationship included fileRelationship of
             None \<Rightarrow> Inr (Some (result\<lparr>mtype := MediaImage\<rparr>))
           | Some file \<Rightarrow>
              (case extractImageFromFile cfg (Some file) of
                 Inl e \<Rightarrow> Inl e
               | Inr None \<Rightarrow> Inr (Some (result\<lparr>mtype := MediaImage\<rparr>))
               | Inr (Some imageData) \<Rightarrow>
                   let altv = getRelationshipMetaString fileRelationship ''alt'';
                       titlev = getRelationshipMetaString fileRelationship ''title''
                   in Inr (Some (result
                        \<lparr>mtype := MediaImage,
                         url := Some (src imageData),
                         image_data := Some (imageData
                           \<lparr>alt := js_or (string_or_undefined altv) (js_or (alt imageData) nm),
                            title := js_or (string_or_undefined titlev) (title imageData)\<rparr>)\<rparr>))))
        else if mediaType = ''video'' then
          (case findIncludedByRelationship included (relationship m ''field_media_video_file'') of
             None \<Rightarrow> Inr (Some (result\<lparr>mtype := MediaVideo\<rparr>))
           | Some file \<Rightarrow>
              (case getFileUrl cfg (Some file) of
                 Inl e \<Rightarrow> Inl e
               | Inr u \<Rightarrow> Inr (Some (result
                    \<lparr>mtype := MediaVideo, url := u,
                     mimeType := js_or (attr file ''filemime'') (JStr ''video/mp4'')\<rparr>))))
        else if mediaType = ''remote_video'' then
          (let videoUrl = attr m ''field_media_oembed_video'' in
           if truthy videoUrl then
             (case videoUrl of
                JStr v \<Rightarrow> Inr (Some (result
                    \<lparr>mtype := MediaRemoteVideo, url := Some v, embedUrl := getVideoEmbedUrl v\<rparr>))
              | _ \<Rightarrow> Inl TypeError)
           else Inr (Some (result\<lparr>mtype := MediaRemoteVideo\<rparr>)))
        else if mediaType = ''file'' \<or> mediaType = ''document'' then
          (let fileRelationship =
                 (case relationship m ''field_media_file'' of
                    Some r \<Rightarrow> Some r
                  | None \<Rightarrow> relationship m ''field_media_document'')
           in
           case findIncludedByRelationship included fileRelationship of
             None \<Rightarrow> Inr (Some (result\<lparr>mtype := MediaFile\<rparr>))
           | Some file \<Rightarrow>
              (case getFileUrl cfg (Some file) of
                 Inl e \<Rightarrow> Inl e
               | Inr u \<Rightarrow> Inr (Some (result
                    \<lparr>mtype := MediaFile, url := u, mimeType := attr file ''filemime''\<rparr>))))
        else if mediaType = ''audio'' then
          (case findIncludedByRelationship included (relationship m ''field_media_audio_file'') of
             None \<Rightarrow> Inr (Some (result\<lparr>mtype := MediaAudio\<rparr>))
           | Some file \<Rightarrow>
              (case getFileUrl cfg (Some file) of
                 Inl e \<Rightarrow> Inl e
               | Inr u \<Rightarrow> Inr (Some (result
                    \<lparr>mtype := MediaAudio, url := u,
                     mimeType := js_or (attr file ''filemime'') (JStr ''audio/mpeg'')\<rparr>))))
        else Inr (Some result))"

text \<open>The loop of \<^verbatim>\<open>parseDrupalMediaTag\<close> that skips white space from \<open>index\<close> on.\<close>

function skipWhitespace :: "string \<Rightarrow> nat \<Rightarrow> nat" where
  "skipWhitespace html index =
    (if index < length html \<and> whitespace (html ! index) then skipWhitespace html (index + 1)
     else index)"
  by pat_completeness auto
termination
  by (relation "measure (\<lambda>(html, index). length html - index)") auto

declare skipWhitespace.simps [simp del]

text \<open>
  \<^verbatim>\<open>parseDrupalMediaTag\<close>. Reading \<^verbatim>\<open>html[index]\<close> past the end yields undefined, which is
  neither quote character.
\<close>

definition parseDrupalMediaTag :: "string \<Rightarrow> string option" where
  "parseDrupalMediaTag html =
    (case indexOf html ''data-entity-uuid='' 0 of
       None \<Rightarrow> None
     | Some start \<Rightarrow>
         let index = skipWhitespace html (start + length ''data-entity-uuid='') in
         if index < length html then
           (let quote = html ! index in
            if quote \<noteq> CHR 0x22 \<and> quote \<noteq> CHR 0x27 then None
            else
              (case indexOf html [quote] (index + 1) of
                 None \<Rightarrow> None
               | Some e \<Rightarrow>
                   let uuid = slice html (index + 1) e in
                   if uuid = [] then None else Some uuid))
         else None)"

text \<open>
  The loop of \<^verbatim>\<open>extractEmbeddedMediaUuids\<close> from position \<open>index\<close>: the identifiers pushed
  from there on.
\<close>

function scanDrupalMedia :: "string \<Rightarrow> nat \<Rightarrow> string list" where
  "scanDrupalMedia html index =
    (if index < length html then
       (case indexOf html ''<drupal-media'' index of
          None \<Rightarrow> []
        | Some start \<Rightarrow>
           (case indexOf html ''>'' start of
              None \<Rightarrow> []
            | Some e \<Rightarrow>
               (case parseDrupalMediaTag (slice html start (e + 1)) of
                  Some uuid \<Rightarrow>
                    if uuid \<noteq> [] then uuid # scanDrupalMedia html (e + 1)
                    else scanDrupalMedia html (e + 1)
                | None \<Rightarrow> scanDrupalMedia html (e + 1))))
     else [])"
  by pat_completeness auto
termination
proof -
  have ge: "min f (length s) \<le> i" if "indexOf s p f = Some i" for s p f i
    using that by (auto simp: indexOf_def Let_def)
  have step: "length html - Suc e < length html - index"
    if "index < length html" "indexOf html p index = Some start" "indexOf html q start = Some e"
    for html :: string and p q index start e
    using ge[OF that(2)] ge[OF that(3)] that(1) by (simp add: min_def split: if_splits)
  show ?thesis
    by (relation "measure (\<lambda>(html, index). length html - index)") (auto intro: step)
qed

declare scanDrupalMedia.simps [simp del]

definition extractEmbeddedMediaUuids :: "string \<Rightarrow> string list" where
  "extractEmbeddedMediaUuids html = scanDrupalMedia html 0"

section \<open>Example feeds\<close>

text \<open>
  A platform for the base \<^verbatim>\<open>https://cms.example.com\<close>: the URL constructor on the inputs
  the examples use, as the WHATWG URL standard resolves them.
\<close>

definition cms_url :: "string \<Rightarrow> (string \<times> string) list \<Rightarrow> URL" where
  "cms_url p q =
    \<lparr>origin = ''https://cms.example.com'', protocol = ''https:'', pathname = p, searchParams = q\<rparr>"

definition example_newURL :: "string \<Rightarrow> URL option" where
  "example_newURL s = (if s = ''https://cms.example.com'' then Some (cms_url ''/'' []) else None)"

definition example_newURL_base :: "string \<Rightarrow> URL \<Rightarrow> URL option" where
  "example_newURL_base s b =
    map_of
      [(''/jsonapi/routes'', cms_url ''/jsonapi/routes'' []),
       (''https://cms.example.com/jsonapi/routes?page=2'',
          cms_url ''/jsonapi/routes'' [(''page'', ''2'')]),
       (''/jsonapi/routes?page=3'', cms_url ''/jsonapi/routes'' [(''page'', ''3'')]),
       (''https://evil.example.com/x'',
          \<lparr>origin = ''https://evil.example.com'', protocol = ''https:'', pathname = ''/x'',
           searchParams = []\<rparr>),
       (''ftp://cms.example.com/x'',
          \<lparr>origin = ''ftp://cms.example.com'', protocol = ''ftp:'', pathname = ''/x'',
           searchParams = []\<rparr>)] s"

definition entity_item :: "string \<Rightarrow> string \<Rightarrow> json" where
  "entity_item p u =
    JObj [(''path'', JStr p), (''kind'', JStr ''entity''), (''jsonapi_url'', JStr u),
          (''data_url'', JNull)]"

definition view_item :: "string \<Rightarrow> string \<Rightarrow> json" where
  "view_item p u =
    JObj [(''path'', JStr p), (''kind'', JStr ''view''), (''jsonapi_url'', JNull),
          (''data_url'', JStr u)]"

definition feed_doc :: "json list \<Rightarrow> json \<Rightarrow> json" where
  "feed_doc items next = JObj [(''data'', JArr items), (''links'', JObj [(''next'', next)])]"

definition ok_response :: "json \<Rightarrow> response" where
  "ok_response doc = \<lparr>ok = True, status = 200, statusText = ''OK'', body = Some doc\<rparr>"

definition page1_items :: "json list" where
  "page1_items =
    [entity_item ''/about'' ''/jsonapi/node/page/1'', view_item ''/blog'' ''/jsonapi/views/blog/page_1'']"

definition page2_items :: "json list" where
  "page2_items =
    [entity_item ''/contact'' ''/jsonapi/node/page/2'', entity_item ''/team'' ''/jsonapi/node/page/3'']"

definition page3_items :: "json list" where
  "page3_items = [view_item ''/news'' ''/jsonapi/views/news/page_1'']"

text \<open>Three pages of 2, 2 and 1 entries; the third page has \<^verbatim>\<open>next: null\<close>.\<close>

definition three_page_feed :: platform where
  "three_page_feed =
    \<lparr>newURL = example_newURL,
     newURL_base = example_newURL_base,
     fetcher = (\<lambda>u.
       if searchParams u = [(''page'', ''2'')]
         then Some (ok_response (feed_doc page2_items (JStr ''/jsonapi/routes?page=3'')))
       else if searchParams u = [(''page'', ''3'')]
         then Some (ok_response (feed_doc page3_items JNull))
       else Some (ok_response
                   (feed_doc page1_items (JStr ''https://cms.example.com/jsonapi/routes?page=2''))))\<rparr>"

text \<open>A server that answers every request with a page that links to page 2.\<close>

definition looping_feed :: platform where
  "looping_feed =
    \<lparr>newURL = example_newURL,
     newURL_base = example_newURL_base,
     fetcher = (\<lambda>u. Some (ok_response
                 (feed_doc page3_items (JStr ''https://cms.example.com/jsonapi/routes?page=2''))))\<rparr>"

text \<open>A server whose body is an object with a \<^verbatim>\<open>data\<close> member that is not an array, and one
  whose body is the JSON null.\<close>

definition string_data_feed :: platform where
  "string_data_feed =
    \<lparr>newURL = example_newURL,
     newURL_base = example_newURL_base,
     fetcher = (\<lambda>u. Some (ok_response (JObj [(''data'', JStr ''oops'')])))\<rparr>"

definition null_body_feed :: platform where
  "null_body_feed =
    \<lparr>newURL = example_newURL,
     newURL_base = example_newURL_base,
     fetcher = (\<lambda>u. Some (ok_response JNull))\<rparr>"

text \<open>A feed that answers every request with a JSON array: the body \<^verbatim>\<open>[{"path": "/about"}]\<close>.\<close>

definition array_body_feed :: platform where
  "array_body_feed =
    \<lparr>newURL = example_newURL,
     newURL_base = example_newURL_base,
     fetcher = (\<lambda>u. Some (ok_response (JArr [JObj [(''path'', JStr ''/about'')]])))\<rparr>"

text \<open>A base whose origin is opaque: every \<^verbatim>\<open>file:\<close> URL has the origin \<^verbatim>\<open>null\<close>.\<close>

definition file_platform :: platform where
  "file_platform =
    \<lparr>newURL = (\<lambda>s. if s = ''file:///srv/cms/''
                 then Some \<lparr>origin = ''null'', protocol = ''file:'', pathname = ''/srv/cms/'',
                            searchParams = []\<rparr>
                 else None),
     newURL_base = (\<lambda>s b. if s = ''routes-2.json''
                 then Some \<lparr>origin = ''null'', protocol = ''file:'',
                            pathname = ''/srv/cms/routes-2.json'', searchParams = []\<rparr>
                 else None),
     fetcher = (\<lambda>u. None)\<rparr>"

definition example_options :: options where
  "example_options =
    \<lparr>baseUrl = ''https://cms.example.com'', langcode = None, limit = None, opt_url = None,
     maxPages = None\<rparr>"

section \<open>Example resources\<close>

definition example_base :: string where
  "example_base = ''https://cms.example.com''"

text \<open>A file resource as Drupal serialises it, without and with \<^verbatim>\<open>image_style_uri\<close>.\<close>

definition file_a :: JsonApiResource where
  "file_a =
    \<lparr>res_type = ''file--file'', res_id = ''f1'',
     attributes = Some
       [(''filename'', JStr ''a.png''),
        (''uri'', JObj [(''value'', JStr ''public://a.png''),
                        (''url'', JStr ''/sites/default/files/a.png'')]),
        (''filemime'', JStr ''image/png''),
        (''width'', JNum 800),
        (''height'', JNum 600)],
     relationships = None\<rparr>"

definition file_styled :: JsonApiResource where
  "file_styled =
    \<lparr>res_type = ''file--file'', res_id = ''f2'',
     attributes = Some
       [(''filename'', JStr ''b.png''),
        (''uri'', JObj [(''value'', JStr ''public://b.png''),
                        (''url'', JStr ''/sites/default/files/b.png'')]),
        (''image_style_uri'',
           JObj [(''thumbnail'', JStr ''/sites/default/files/styles/thumbnail/public/b.png'')]),
        (''width'', JNum 800),
        (''height'', JNum 600)],
     relationships = None\<rparr>"

text \<open>An image media entity named Hero whose \<^verbatim>\<open>field_media_image\<close> refers to the file with
  the given identifier and carries the given metadata.\<close>

definition image_media :: "string \<Rightarrow> json \<Rightarrow> JsonApiResource" where
  "image_media file_id metav =
    \<lparr>res_type = ''media--image'', res_id = ''m1'',
     attributes = Some [(''name'', JStr ''Hero'')],
     relationships = Some
       [(''field_media_image'',
         RelOne \<lparr>ref_type = ''file--file'', ref_id = file_id, ref_meta = metav\<rparr>)]\<rparr>"



section \<open>Properties of the routes feed normalisation\<close>

lemma trim_eq_Nil: "trim s = [] \<longleftrightarrow> (\<forall>c \<in> set s. whitespace c)"
proof -
  have "trim s = [] \<longleftrightarrow> dropWhile whitespace (rev (dropWhile whitespace s)) = []"
    by (simp add: trim_def)
  also have "\<dots> \<longleftrightarrow> (\<forall>c \<in> set (dropWhile whitespace s). whitespace c)"
    by (simp add: dropWhile_eq_Nil_conv)
  also have "\<dots> \<longleftrightarrow> (\<forall>c \<in> set s. whitespace c)"
  proof
    assume h: "\<forall>c \<in> set (dropWhile whitespace s). whitespace c"
    show "\<forall>c \<in> set s. whitespace c"
    proof (cases "dropWhile whitespace s")
      case Nil
      then show ?thesis by (simp add: dropWhile_eq_Nil_conv)
    next
      case (Cons a as)
      then have "\<not> whitespace a" by (metis hd_dropWhile list.sel(1) list.distinct(1))
      moreover have "a \<in> set (dropWhile whitespace s)" using Cons by simp
      ultimately show ?thesis using h by blast
    qed
  next
    assume "\<forall>c \<in> set s. whitespace c"
    then show "\<forall>c \<in> set (dropWhile whitespace s). whitespace c"
      by (meson set_dropWhileD)
  qed
  finally show ?thesis .
qed

lemma slash_not_whitespace: "\<not> whitespace (CHR ''/'')"
  by (simp add: whitespace_def)

lemma startsWith_slash_trim: "startsWith p ''/'' \<Longrightarrow> trim p \<noteq> []"
proof -
  assume "startsWith p ''/''"
  then have "CHR ''/'' \<in> set p" by (auto simp: startsWith_def prefix_def)
  then show ?thesis using slash_not_whitespace trim_eq_Nil by blast
qed

lemmas example_defs = three_page_feed_def looping_feed_def example_newURL_def
  example_newURL_base_def cms_url_def example_options_def ok_response_def feed_doc_def
  page1_items_def page2_items_def page3_items_def entity_item_def view_item_def
  string_data_feed_def null_body_feed_def file_platform_def

lemmas routes_defs = fetchRoutesPage_def routesRequestUrl_def firstRoutesUrl_def
  buildRoutesUrl_def routesPageOfDoc_def getNextLink_def normalizeRoutesItem_def
  List.map_filter_def trim_def whitespace_def startsWith_def String_of_int_def digits.simps

lemma normalizeRoutesItem_iff:
  "normalizeRoutesItem v = Some item \<longleftrightarrow>
     (\<exists>kvs p u. v = JObj kvs \<and> getProp v ''path'' = JStr p \<and> startsWith p ''/'' \<and> trim u \<noteq> [] \<and>
        ((getProp v ''kind'' = JStr ''entity'' \<and> getProp v ''jsonapi_url'' = JStr u
            \<and> getProp v ''data_url'' = JNull
            \<and> item = \<lparr>path = p, kind = Entity, jsonapi_url = Some u, data_url = None\<rparr>) \<or>
         (getProp v ''kind'' = JStr ''view'' \<and> getProp v ''data_url'' = JStr u
            \<and> getProp v ''jsonapi_url'' = JNull
            \<and> item = \<lparr>path = p, kind = View, jsonapi_url = None, data_url = Some u\<rparr>)))"
  by (cases v)
    (auto simp: normalizeRoutesItem_def Let_def startsWith_slash_trim split: json.splits if_splits)

lemma in_set_map_filter:
  "y \<in> set (List.map_filter f xs) \<longleftrightarrow> (\<exists>x \<in> set xs. f x = Some y)"
  by (induction xs) (auto split: option.splits)

lemma routesPageOfDoc_data:
  assumes "routesPageOfDoc doc = Inr page" "getProp doc ''data'' = JArr raw"
  shows "data page = List.map_filter normalizeRoutesItem raw"
  using assms by (auto simp: routesPageOfDoc_def Let_def split: if_splits)

text \<open>
  Claim C1, as the code has it. \<^verbatim>\<open>normalizeRoutesItem\<close> accepts a value exactly when it is an
  object whose \<^verbatim>\<open>path\<close> is a string starting with a slash, whose \<^verbatim>\<open>kind\<close> is \<^verbatim>\<open>entity\<close> or
  \<^verbatim>\<open>view\<close>, whose URL for that kind (\<^verbatim>\<open>jsonapi_url\<close> for an entity, \<^verbatim>\<open>data_url\<close> for a view) is
  a string that is not empty after trimming white space, and whose other URL is the value
  null; the accepted item carries the path and the URL unchanged. The page returned for a
  body holds exactly the accepted items of its \<^verbatim>\<open>data\<close> array, in order.
\<close>

theorem normalizeRoutesItem_accepts:
  "(normalizeRoutesItem v = Some item \<longleftrightarrow>
     (\<exists>kvs p u. v = JObj kvs \<and> getProp v ''path'' = JStr p \<and> startsWith p ''/'' \<and> trim u \<noteq> [] \<and>
        ((getProp v ''kind'' = JStr ''entity'' \<and> getProp v ''jsonapi_url'' = JStr u
            \<and> getProp v ''data_url'' = JNull
            \<and> item = \<lparr>path = p, kind = Entity, jsonapi_url = Some u, data_url = None\<rparr>) \<or>
         (getProp v ''kind'' = JStr ''view'' \<and> getProp v ''data_url'' = JStr u
            \<and> getProp v ''jsonapi_url'' = JNull
            \<and> item = \<lparr>path = p, kind = View, jsonapi_url = None, data_url = Some u\<rparr>))))
   \<and> (routesPageOfDoc doc = Inr page \<and> getProp doc ''data'' = JArr raw \<longrightarrow>
        data page = List.map_filter normalizeRoutesItem raw \<and>
        (\<forall>x. x \<in> set (data page) \<longleftrightarrow> (\<exists>r \<in> set raw. normalizeRoutesItem r = Some x)))"
proof (intro conjI impI)
  show "normalizeRoutesItem v = Some item \<longleftrightarrow>
     (\<exists>kvs p u. v = JObj kvs \<and> getProp v ''path'' = JStr p \<and> startsWith p ''/'' \<and> trim u \<noteq> [] \<and>
        ((getProp v ''kind'' = JStr ''entity'' \<and> getProp v ''jsonapi_url'' = JStr u
            \<and> getProp v ''data_url'' = JNull
            \<and> item = \<lparr>path = p, kind = Entity, jsonapi_url = Some u, data_url = None\<rparr>) \<or>
         (getProp v ''kind'' = JStr ''view'' \<and> getProp v ''data_url'' = JStr u
            \<and> getProp v ''jsonapi_url'' = JNull
            \<and> item = \<lparr>path = p, kind = View, jsonapi_url = None, data_url = Some u\<rparr>)))"
    by (rule normalizeRoutesItem_iff)
next
  assume h: "routesPageOfDoc doc = Inr page \<and> getProp doc ''data'' = JArr raw"
  then show d: "data page = List.map_filter normalizeRoutesItem raw"
    using routesPageOfDoc_data by blast
  show "\<forall>x. x \<in> set (data page) \<longleftrightarrow> (\<exists>r \<in> set raw. normalizeRoutesItem r = Some x)"
    unfolding d by (simp add: in_set_map_filter)
qed

text \<open>The statement at a page with one malformed item (the number 7) and two well-formed ones.\<close>

theorem normalizeRoutesItem_accepts_witness:
  "routesPageOfDoc (feed_doc (JNum 7 # page1_items) JNull) =
      Inr \<lparr>data = List.map_filter normalizeRoutesItem (JNum 7 # page1_items),
           links_self = None, links_next = None, meta = JUndefined\<rparr>
   \<and> List.map_filter normalizeRoutesItem (JNum 7 # page1_items) =
      [\<lparr>path = ''/about'', kind = Entity, jsonapi_url = Some ''/jsonapi/node/page/1'', data_url = None\<rparr>,
       \<lparr>path = ''/blog'', kind = View, jsonapi_url = None,
         data_url = Some ''/jsonapi/views/blog/page_1''\<rparr>]"
proof -
  let ?doc = "feed_doc (JNum 7 # page1_items) JNull"
  let ?page = "\<lparr>data = List.map_filter normalizeRoutesItem (JNum 7 # page1_items),
           links_self = None, links_next = None, meta = JUndefined\<rparr>"
  have a: "routesPageOfDoc ?doc = Inr ?page"
    by (simp add: routesPageOfDoc_def feed_doc_def getNextLink_def)
  have b: "getProp ?doc ''data'' = JArr (JNum 7 # page1_items)"
    by (simp add: feed_doc_def)
  have "data ?page = List.map_filter normalizeRoutesItem (JNum 7 # page1_items)"
    using normalizeRoutesItem_accepts[where doc = ?doc and page = ?page
        and raw = "JNum 7 # page1_items"] a b by blast
  moreover have "List.map_filter normalizeRoutesItem (JNum 7 # page1_items) =
      [\<lparr>path = ''/about'', kind = Entity, jsonapi_url = Some ''/jsonapi/node/page/1'', data_url = None\<rparr>,
       \<lparr>path = ''/blog'', kind = View, jsonapi_url = None,
         data_url = Some ''/jsonapi/views/blog/page_1''\<rparr>]"
    by (simp add: example_defs routes_defs)
  ultimately show ?thesis using a by simp
qed

text \<open>
  Claim C1 as the specification words it fails: an entity item with a \<^verbatim>\<open>jsonapi_url\<close> and no
  \<^verbatim>\<open>data_url\<close> key meets the specification's condition (the other URL is absent) and is
  dropped, because the code compares the other URL with null.
\<close>

theorem normalizeRoutesItem_absent_url_counterexample:
  "spec_accepts_route
      (JObj [(''path'', JStr ''/about''), (''kind'', JStr ''entity''),
             (''jsonapi_url'', JStr ''/jsonapi/node/page/1'')])
   \<and> normalizeRoutesItem
      (JObj [(''path'', JStr ''/about''), (''kind'', JStr ''entity''),
             (''jsonapi_url'', JStr ''/jsonapi/node/page/1'')]) = None"
  by (simp add: spec_accepts_route_def normalizeRoutesItem_def startsWith_def
      nonempty_string_def absent_or_null_def trim_def whitespace_def)

section \<open>Properties of the origin guard and of pagination\<close>

lemma fetchRoutesPage_requests:
  "fetchRoutesPage pf opts = (Inr page, reqs) \<Longrightarrow> length reqs = 1"
  by (auto simp: fetchRoutesPage_def split: sum.splits option.splits if_splits)

lemma iterateLoop_last:
  assumes "i < maxP" "fetchRoutesPage pf (opts\<lparr>opt_url := c\<rparr>) = (Inr p, r)" "links_next p = None"
  shows "iterateLoop pf opts maxP i c = (data p, None, r)"
  using assms by (simp add: iterateLoop.simps[of pf opts maxP i c])

lemma iterateLoop_step:
  assumes "i < maxP" "fetchRoutesPage pf (opts\<lparr>opt_url := c\<rparr>) = (Inr p, r)"
    "links_next p = Some n" "n \<noteq> []"
  shows "iterateLoop pf opts maxP i c =
     (case iterateLoop pf opts maxP (i + 1) (Some n) of
        (items, e, reqs) \<Rightarrow> (data p @ items, e, r @ reqs))"
  using assms by (simp add: iterateLoop.simps[of pf opts maxP i c])

lemma iterateLoop_over: "\<not> i < maxP \<Longrightarrow> iterateLoop pf opts maxP i c = ([], Some (PaginationOverrunError maxP), [])"
  by (simp add: iterateLoop.simps[of pf opts maxP i c])

lemma iterateLoop_chain:
  assumes pg: "\<And>k. k < nat maxP \<Longrightarrow> fetchRoutesPage pf (opts\<lparr>opt_url := c k\<rparr>) = (Inr (pg k), rq k)"
    and nx: "\<And>k. k < nat maxP \<Longrightarrow> links_next (pg k) = Some (n k) \<and> n k \<noteq> [] \<and> c (Suc k) = Some (n k)"
  shows "j \<le> nat maxP \<Longrightarrow> iterateLoop pf opts maxP (maxP - int j) (c (nat maxP - j)) =
      (concat (map (\<lambda>k. data (pg k)) [nat maxP - j ..< nat maxP]),
       Some (PaginationOverrunError maxP),
       concat (map rq [nat maxP - j ..< nat maxP]))"
proof (induction j)
  case 0
  then show ?case by (simp add: iterateLoop_over)
next
  case (Suc j)
  let ?k = "nat maxP - Suc j"
  have k: "?k < nat maxP" using Suc.prems by simp
  have nxt: "nat maxP - j = Suc ?k" using Suc.prems by simp
  have i: "maxP - int (Suc j) < maxP" by simp
  have ih: "iterateLoop pf opts maxP (maxP - int j) (c (Suc ?k)) =
      (concat (map (\<lambda>k. data (pg k)) [Suc ?k ..< nat maxP]),
       Some (PaginationOverrunError maxP),
       concat (map rq [Suc ?k ..< nat maxP]))"
    using Suc.IH Suc.prems nxt by simp
  have up: "[?k ..< nat maxP] = ?k # [Suc ?k ..< nat maxP]"
    using k by (simp add: upt_conv_Cons)
  have "iterateLoop pf opts maxP (maxP - int (Suc j)) (c ?k) =
     (case iterateLoop pf opts maxP (maxP - int (Suc j) + 1) (Some (n ?k)) of
        (items, e, reqs) \<Rightarrow> (data (pg ?k) @ items, e, rq ?k @ reqs))"
    using iterateLoop_step[OF i pg[OF k]] nx[OF k] by simp
  moreover have "maxP - int (Suc j) + 1 = maxP - int j" by simp
  moreover have "Some (n ?k) = c (Suc ?k)" using nx[OF k] by simp
  ultimately show ?case using ih up by simp
qed

lemma iterateRoutes_overrun:
  assumes "maxPages opts = Some m" "0 \<le> m"
    and pg: "\<And>k. k < nat m \<Longrightarrow> fetchRoutesPage pf (opts\<lparr>opt_url := c k\<rparr>) = (Inr (pg k), rq k)"
    and nx: "\<And>k. k < nat m \<Longrightarrow> links_next (pg k) = Some (n k) \<and> n k \<noteq> [] \<and> c (Suc k) = Some (n k)"
    and c0: "c 0 = None"
  shows "iterateRoutes pf opts =
      (concat (map (\<lambda>k. data (pg k)) [0 ..< nat m]), Some (PaginationOverrunError m),
       concat (map rq [0 ..< nat m]))"
  using iterateLoop_chain[where maxP = m and j = "nat m" and pf = pf and opts = opts and c = c
      and pg = pg and rq = rq and n = n, OF pg nx] assms(1,2) c0
  by (simp add: iterateRoutes_def)






text \<open>
  Claim C3. When the first request is answered by a page with a next link, the request for
  that link by a second page with a next link, and the request for that one by a page
  without a next link, and the pages hold 2, 2 and 1 entries, \<^verbatim>\<open>collectRoutes\<close> (with a
  page ceiling of at least 3) returns the 5 entries, page by page and in the order of each
  page. When each of the first \<open>m\<close> pages of the cursor chain has a next link and
  \<^verbatim>\<open>maxPages\<close> is \<open>m\<close>, \<^verbatim>\<open>iterateRoutes\<close> yields the entries of these \<open>m\<close> pages and then
  throws the overrun error, after exactly \<open>m\<close> requests: no further page is
  requested, and \<^verbatim>\<open>collectRoutes\<close> fails with the same error.
\<close>

theorem collectRoutes_pages:
  "(3 \<le> (case maxPages opts of Some m \<Rightarrow> m | None \<Rightarrow> 10000)
      \<and> fetchRoutesPage pf (opts\<lparr>opt_url := None\<rparr>) = (Inr p1, r1)
      \<and> links_next p1 = Some n1 \<and> n1 \<noteq> []
      \<and> fetchRoutesPage pf (opts\<lparr>opt_url := Some n1\<rparr>) = (Inr p2, r2)
      \<and> links_next p2 = Some n2 \<and> n2 \<noteq> []
      \<and> fetchRoutesPage pf (opts\<lparr>opt_url := Some n2\<rparr>) = (Inr p3, r3)
      \<and> links_next p3 = None
      \<and> length (data p1) = 2 \<and> length (data p2) = 2 \<and> length (data p3) = 1
    \<longrightarrow> collectRoutes pf opts = (Inr (data p1 @ data p2 @ data p3), r1 @ r2 @ r3)
      \<and> length (data p1 @ data p2 @ data p3) = 5)
   \<and> (maxPages opts' = Some m \<and> 0 \<le> m \<and> c 0 = None
      \<and> (\<forall>k < nat m. fetchRoutesPage pf' (opts'\<lparr>opt_url := c k\<rparr>) = (Inr (pg k), rq k)
             \<and> links_next (pg k) = Some (n k) \<and> n k \<noteq> [] \<and> c (Suc k) = Some (n k))
    \<longrightarrow> iterateRoutes pf' opts' =
          (concat (map (\<lambda>k. data (pg k)) [0 ..< nat m]), Some (PaginationOverrunError m),
           concat (map rq [0 ..< nat m]))
      \<and> collectRoutes pf' opts' = (Inl (PaginationOverrunError m), concat (map rq [0 ..< nat m]))
      \<and> length (concat (map rq [0 ..< nat m])) = nat m)"
proof (intro conjI impI)
  assume h: "3 \<le> (case maxPages opts of Some m \<Rightarrow> m | None \<Rightarrow> 10000)
      \<and> fetchRoutesPage pf (opts\<lparr>opt_url := None\<rparr>) = (Inr p1, r1)
      \<and> links_next p1 = Some n1 \<and> n1 \<noteq> []
      \<and> fetchRoutesPage pf (opts\<lparr>opt_url := Some n1\<rparr>) = (Inr p2, r2)
      \<and> links_next p2 = Some n2 \<and> n2 \<noteq> []
      \<and> fetchRoutesPage pf (opts\<lparr>opt_url := Some n2\<rparr>) = (Inr p3, r3)
      \<and> links_next p3 = None
      \<and> length (data p1) = 2 \<and> length (data p2) = 2 \<and> length (data p3) = 1"
  define M where "M = (case maxPages opts of Some m \<Rightarrow> m | None \<Rightarrow> 10000)"
  have M: "0 < M" "0 + 1 < M" "0 + 1 + 1 < M" using h by (simp_all add: M_def)
  have l3: "iterateLoop pf opts M (0 + 1 + 1) (Some n2) = (data p3, None, r3)"
    using iterateLoop_last[OF M(3), where pf = pf and opts = opts and c = "Some n2" and p = p3 and r = r3] h by simp
  have l2: "iterateLoop pf opts M (0 + 1) (Some n1) = (data p2 @ data p3, None, r2 @ r3)"
    using iterateLoop_step[OF M(2), where pf = pf and opts = opts and c = "Some n1" and p = p2 and r = r2 and n = n2] h l3 by simp
  have l1: "iterateLoop pf opts M 0 None = (data p1 @ data p2 @ data p3, None, r1 @ r2 @ r3)"
    using iterateLoop_step[OF M(1), where pf = pf and opts = opts and c = None and p = p1 and r = r1 and n = n1] h l2 by simp
  show "collectRoutes pf opts = (Inr (data p1 @ data p2 @ data p3), r1 @ r2 @ r3)"
    using l1 by (simp add: collectRoutes_def iterateRoutes_def M_def)
  show "length (data p1 @ data p2 @ data p3) = 5" using h by simp
next
  assume h: "maxPages opts' = Some m \<and> 0 \<le> m \<and> c 0 = None
      \<and> (\<forall>k < nat m. fetchRoutesPage pf' (opts'\<lparr>opt_url := c k\<rparr>) = (Inr (pg k), rq k)
             \<and> links_next (pg k) = Some (n k) \<and> n k \<noteq> [] \<and> c (Suc k) = Some (n k))"
  show it: "iterateRoutes pf' opts' =
          (concat (map (\<lambda>k. data (pg k)) [0 ..< nat m]), Some (PaginationOverrunError m),
           concat (map rq [0 ..< nat m]))"
    using h by (intro iterateRoutes_overrun[where n = n and c = c]) auto
  show "collectRoutes pf' opts' = (Inl (PaginationOverrunError m), concat (map rq [0 ..< nat m]))"
    using it by (simp add: collectRoutes_def)
  have one: "\<And>k. k < nat m \<Longrightarrow> length (rq k) = 1"
    using h fetchRoutesPage_requests by blast
  have "\<And>j. j \<le> nat m \<Longrightarrow> length (concat (map rq [0 ..< j])) = j"
  proof -
    fix j show "j \<le> nat m \<Longrightarrow> length (concat (map rq [0 ..< j])) = j"
      by (induction j) (simp_all add: one)
  qed
  then show "length (concat (map rq [0 ..< nat m])) = nat m" by simp
qed

lemma three_page_1:
  "fetchRoutesPage three_page_feed (example_options\<lparr>opt_url := None\<rparr>) =
    (Inr \<lparr>data = List.map_filter normalizeRoutesItem page1_items, links_self = None,
          links_next = Some ''https://cms.example.com/jsonapi/routes?page=2'', meta = JUndefined\<rparr>,
     [cms_url ''/jsonapi/routes'' [(''_format'', ''json''), (''page[limit]'', ''50'')]])"
  by (simp add: three_page_feed_def example_newURL_def example_newURL_base_def cms_url_def
      example_options_def ok_response_def feed_doc_def fetchRoutesPage_def routesRequestUrl_def
      firstRoutesUrl_def buildRoutesUrl_def routesPageOfDoc_def getNextLink_def trim_def
      whitespace_def String_of_int_def digits.simps)

lemma three_page_2:
  "fetchRoutesPage three_page_feed
      (example_options\<lparr>opt_url := Some ''https://cms.example.com/jsonapi/routes?page=2''\<rparr>) =
    (Inr \<lparr>data = List.map_filter normalizeRoutesItem page2_items, links_self = None,
          links_next = Some ''/jsonapi/routes?page=3'', meta = JUndefined\<rparr>,
     [cms_url ''/jsonapi/routes'' [(''page'', ''2'')]])"
  by (simp add: three_page_feed_def example_newURL_def example_newURL_base_def cms_url_def
      example_options_def ok_response_def feed_doc_def fetchRoutesPage_def routesRequestUrl_def
      firstRoutesUrl_def buildRoutesUrl_def routesPageOfDoc_def getNextLink_def trim_def
      whitespace_def)

lemma three_page_3:
  "fetchRoutesPage three_page_feed (example_options\<lparr>opt_url := Some ''/jsonapi/routes?page=3''\<rparr>) =
    (Inr \<lparr>data = List.map_filter normalizeRoutesItem page3_items, links_self = None,
          links_next = None, meta = JUndefined\<rparr>,
     [cms_url ''/jsonapi/routes'' [(''page'', ''3'')]])"
  by (simp add: three_page_feed_def example_newURL_def example_newURL_base_def cms_url_def
      example_options_def ok_response_def feed_doc_def fetchRoutesPage_def routesRequestUrl_def
      firstRoutesUrl_def buildRoutesUrl_def routesPageOfDoc_def getNextLink_def trim_def
      whitespace_def)

lemma page_items_normalized:
  "List.map_filter normalizeRoutesItem page1_items =
     [\<lparr>path = ''/about'', kind = Entity, jsonapi_url = Some ''/jsonapi/node/page/1'', data_url = None\<rparr>,
      \<lparr>path = ''/blog'', kind = View, jsonapi_url = None, data_url = Some ''/jsonapi/views/blog/page_1''\<rparr>]"
  "List.map_filter normalizeRoutesItem page2_items =
     [\<lparr>path = ''/contact'', kind = Entity, jsonapi_url = Some ''/jsonapi/node/page/2'', data_url = None\<rparr>,
      \<lparr>path = ''/team'', kind = Entity, jsonapi_url = Some ''/jsonapi/node/page/3'', data_url = None\<rparr>]"
  "List.map_filter normalizeRoutesItem page3_items =
     [\<lparr>path = ''/news'', kind = View, jsonapi_url = None, data_url = Some ''/jsonapi/views/news/page_1''\<rparr>]"
  by (simp_all add: page1_items_def page2_items_def page3_items_def entity_item_def view_item_def
      normalizeRoutesItem_def trim_def whitespace_def startsWith_def)

lemma looping_first:
  "fetchRoutesPage looping_feed (example_options\<lparr>maxPages := Some 3, opt_url := None\<rparr>) =
    (Inr \<lparr>data = List.map_filter normalizeRoutesItem page3_items, links_self = None,
          links_next = Some ''https://cms.example.com/jsonapi/routes?page=2'', meta = JUndefined\<rparr>,
     [cms_url ''/jsonapi/routes'' [(''_format'', ''json''), (''page[limit]'', ''50'')]])"
  by (simp add: looping_feed_def example_newURL_def example_newURL_base_def cms_url_def
      example_options_def ok_response_def feed_doc_def fetchRoutesPage_def routesRequestUrl_def
      firstRoutesUrl_def buildRoutesUrl_def routesPageOfDoc_def getNextLink_def trim_def
      whitespace_def String_of_int_def digits.simps)

lemma looping_next:
  "fetchRoutesPage looping_feed
      (example_options\<lparr>maxPages := Some 3,
         opt_url := Some ''https://cms.example.com/jsonapi/routes?page=2''\<rparr>) =
    (Inr \<lparr>data = List.map_filter normalizeRoutesItem page3_items, links_self = None,
          links_next = Some ''https://cms.example.com/jsonapi/routes?page=2'', meta = JUndefined\<rparr>,
     [cms_url ''/jsonapi/routes'' [(''page'', ''2'')]])"
  by (simp add: looping_feed_def example_newURL_def example_newURL_base_def cms_url_def
      example_options_def ok_response_def feed_doc_def fetchRoutesPage_def routesRequestUrl_def
      firstRoutesUrl_def buildRoutesUrl_def routesPageOfDoc_def getNextLink_def trim_def
      whitespace_def)

text \<open>The statement at the three-page feed, and at the looping feed with \<^verbatim>\<open>maxPages = 3\<close>.\<close>

theorem collectRoutes_pages_witness:
  "collectRoutes three_page_feed example_options =
     (Inr [\<lparr>path = ''/about'', kind = Entity, jsonapi_url = Some ''/jsonapi/node/page/1'', data_url = None\<rparr>,
           \<lparr>path = ''/blog'', kind = View, jsonapi_url = None, data_url = Some ''/jsonapi/views/blog/page_1''\<rparr>,
           \<lparr>path = ''/contact'', kind = Entity, jsonapi_url = Some ''/jsonapi/node/page/2'', data_url = None\<rparr>,
           \<lparr>path = ''/team'', kind = Entity, jsonapi_url = Some ''/jsonapi/node/page/3'', data_url = None\<rparr>,
           \<lparr>path = ''/news'', kind = View, jsonapi_url = None, data_url = Some ''/jsonapi/views/news/page_1''\<rparr>],
      [cms_url ''/jsonapi/routes'' [(''_format'', ''json''), (''page[limit]'', ''50'')],
       cms_url ''/jsonapi/routes'' [(''page'', ''2'')],
       cms_url ''/jsonapi/routes'' [(''page'', ''3'')]])
   \<and> collectRoutes looping_feed (example_options\<lparr>maxPages := Some 3\<rparr>) =
     (Inl (PaginationOverrunError 3),
      [cms_url ''/jsonapi/routes'' [(''_format'', ''json''), (''page[limit]'', ''50'')],
       cms_url ''/jsonapi/routes'' [(''page'', ''2'')],
       cms_url ''/jsonapi/routes'' [(''page'', ''2'')]])"
proof -
  let ?next = "''https://cms.example.com/jsonapi/routes?page=2''"
  let ?loop = "\<lparr>data = List.map_filter normalizeRoutesItem page3_items, links_self = None,
          links_next = Some ?next, meta = JUndefined\<rparr>"
  let ?c = "\<lambda>k::nat. case k of 0 \<Rightarrow> None | Suc j \<Rightarrow> Some ?next"
  let ?rq = "\<lambda>k::nat. case k of
       0 \<Rightarrow> [cms_url ''/jsonapi/routes'' [(''_format'', ''json''), (''page[limit]'', ''50'')]]
     | Suc j \<Rightarrow> [cms_url ''/jsonapi/routes'' [(''page'', ''2'')]]"
  have m: "maxPages example_options = None" by (simp add: example_options_def)
  let ?p1 = "\<lparr>data = List.map_filter normalizeRoutesItem page1_items, links_self = None,
          links_next = Some ?next, meta = JUndefined\<rparr>"
  let ?p2 = "\<lparr>data = List.map_filter normalizeRoutesItem page2_items, links_self = None,
          links_next = Some ''/jsonapi/routes?page=3'', meta = JUndefined\<rparr>"
  let ?p3 = "\<lparr>data = List.map_filter normalizeRoutesItem page3_items, links_self = None,
          links_next = None, meta = JUndefined\<rparr>"
  let ?r1 = "[cms_url ''/jsonapi/routes'' [(''_format'', ''json''), (''page[limit]'', ''50'')]]"
  let ?r2 = "[cms_url ''/jsonapi/routes'' [(''page'', ''2'')]]"
  let ?r3 = "[cms_url ''/jsonapi/routes'' [(''page'', ''3'')]]"
  have three: "3 \<le> (case maxPages example_options of Some m \<Rightarrow> m | None \<Rightarrow> 10000)
      \<and> fetchRoutesPage three_page_feed (example_options\<lparr>opt_url := None\<rparr>) = (Inr ?p1, ?r1)
      \<and> links_next ?p1 = Some ?next \<and> ?next \<noteq> []
      \<and> fetchRoutesPage three_page_feed (example_options\<lparr>opt_url := Some ?next\<rparr>) = (Inr ?p2, ?r2)
      \<and> links_next ?p2 = Some ''/jsonapi/routes?page=3'' \<and> ''/jsonapi/routes?page=3'' \<noteq> []
      \<and> fetchRoutesPage three_page_feed
            (example_options\<lparr>opt_url := Some ''/jsonapi/routes?page=3''\<rparr>) = (Inr ?p3, ?r3)
      \<and> links_next ?p3 = None
      \<and> length (data ?p1) = 2 \<and> length (data ?p2) = 2 \<and> length (data ?p3) = 1"
    using three_page_1 three_page_2 three_page_3 m by (simp add: page_items_normalized)
  have a: "collectRoutes three_page_feed example_options =
      (Inr (data ?p1 @ data ?p2 @ data ?p3), ?r1 @ ?r2 @ ?r3)"
    using collectRoutes_pages[THEN conjunct1, rule_format, OF three] by simp
  have hyp: "\<forall>k < nat 3.
      fetchRoutesPage looping_feed (example_options\<lparr>maxPages := Some 3, opt_url := ?c k\<rparr>) = (Inr ?loop, ?rq k)
      \<and> links_next ?loop = Some ?next \<and> ?next \<noteq> [] \<and> ?c (Suc k) = Some ?next"
  proof (intro allI impI)
    fix k :: nat
    show "fetchRoutesPage looping_feed (example_options\<lparr>maxPages := Some 3, opt_url := ?c k\<rparr>) = (Inr ?loop, ?rq k)
      \<and> links_next ?loop = Some ?next \<and> ?next \<noteq> [] \<and> ?c (Suc k) = Some ?next"
      by (cases k) (simp_all add: looping_first looping_next)
  qed
  have b: "collectRoutes looping_feed (example_options\<lparr>maxPages := Some 3\<rparr>) =
      (Inl (PaginationOverrunError 3), concat (map ?rq [0 ..< nat 3]))"
    using collectRoutes_pages[THEN conjunct2, rule_format, where pf' = looping_feed
        and opts' = "example_options\<lparr>maxPages := Some 3\<rparr>" and m = 3 and c = ?c
        and pg = "\<lambda>k. ?loop" and rq = ?rq and n = "\<lambda>k. ?next"] hyp
    by simp
  have up: "[0 ..< nat 3] = [0, Suc 0, Suc (Suc 0)]"
    by (simp add: upt_conv_Cons numeral_3_eq_3)
  show ?thesis using a b unfolding up by (simp add: page_items_normalized)
qed

text \<open>
  Claim C4, as the code has it. Once the request is answered with a success status and a
  JSON body, \<^verbatim>\<open>fetchRoutesPage\<close> fails with the feed format error exactly when the body is
  null or not of the JavaScript type object (a boolean, a number, a string). Every other
  body, an object or an array, yields a page and no error: its entries are the items of
  the \<^verbatim>\<open>data\<close> member that normalise when that member is an array, and there are none when
  it is not an array; in particular an array body, which has no \<^verbatim>\<open>data\<close> member, yields a
  page with no entries.
\<close>

theorem fetchRoutesPage_body_format:
  assumes "routesRequestUrl pf opts = Inr u" and "fetcher pf u = Some res" and "ok res"
    and "body res = Some doc"
  shows "(fetchRoutesPage pf opts = (Inl FeedFormatError, [u])
            \<longleftrightarrow> \<not> truthy doc \<or> \<not> typeof_object doc)
       \<and> (truthy doc \<and> typeof_object doc \<longrightarrow>
            (\<exists>page. fetchRoutesPage pf opts = (Inr page, [u])
               \<and> (\<forall>xs. getProp doc ''data'' = JArr xs \<longrightarrow>
                     data page = List.map_filter normalizeRoutesItem xs)
               \<and> ((\<forall>xs. getProp doc ''data'' \<noteq> JArr xs) \<longrightarrow> data page = [])))
       \<and> (\<forall>ys. doc = JArr ys \<longrightarrow>
            (\<exists>page. fetchRoutesPage pf opts = (Inr page, [u]) \<and> data page = []))"
proof -
  have f: "fetchRoutesPage pf opts = (routesPageOfDoc doc, [u])"
    using assms by (simp add: fetchRoutesPage_def)
  have a: "routesPageOfDoc doc = Inl FeedFormatError \<longleftrightarrow> \<not> truthy doc \<or> \<not> typeof_object doc"
    by (simp add: routesPageOfDoc_def Let_def)
  have b: "truthy doc \<and> typeof_object doc \<longrightarrow>
            (\<exists>page. routesPageOfDoc doc = Inr page
               \<and> (\<forall>xs. getProp doc ''data'' = JArr xs \<longrightarrow>
                     data page = List.map_filter normalizeRoutesItem xs)
               \<and> ((\<forall>xs. getProp doc ''data'' \<noteq> JArr xs) \<longrightarrow> data page = []))"
    by (auto simp: routesPageOfDoc_def Let_def map_filter_simps split: json.splits)
  have c: "\<forall>ys. doc = JArr ys \<longrightarrow> (\<exists>page. routesPageOfDoc doc = Inr page \<and> data page = [])"
    by (auto simp: routesPageOfDoc_def Let_def map_filter_simps)
  show ?thesis unfolding f using a b c by simp
qed

text \<open>The statement at a null body, at a body whose \<^verbatim>\<open>data\<close> is a string, and at an array
  body.\<close>

theorem fetchRoutesPage_body_format_witness:
  "fetchRoutesPage null_body_feed example_options =
     (Inl FeedFormatError,
      [cms_url ''/jsonapi/routes'' [(''_format'', ''json''), (''page[limit]'', ''50'')]])
   \<and> (\<exists>page. fetchRoutesPage string_data_feed example_options =
        (Inr page, [cms_url ''/jsonapi/routes'' [(''_format'', ''json''), (''page[limit]'', ''50'')]])
        \<and> data page = [])
   \<and> (\<exists>page. fetchRoutesPage array_body_feed example_options =
        (Inr page, [cms_url ''/jsonapi/routes'' [(''_format'', ''json''), (''page[limit]'', ''50'')]])
        \<and> data page = [])
   \<and> fetchRoutesPage array_body_feed example_options \<noteq>
        (Inl FeedFormatError,
         [cms_url ''/jsonapi/routes'' [(''_format'', ''json''), (''page[limit]'', ''50'')]])"
proof -
  let ?u = "cms_url ''/jsonapi/routes'' [(''_format'', ''json''), (''page[limit]'', ''50'')]"
  have u1: "routesRequestUrl null_body_feed example_options = Inr ?u"
    by (simp add: null_body_feed_def example_newURL_def example_newURL_base_def cms_url_def
        example_options_def routesRequestUrl_def firstRoutesUrl_def buildRoutesUrl_def
        String_of_int_def digits.simps)
  have f1: "fetcher null_body_feed ?u = Some (ok_response JNull)"
    by (simp add: null_body_feed_def)
  have u2: "routesRequestUrl string_data_feed example_options = Inr ?u"
    by (simp add: string_data_feed_def example_newURL_def example_newURL_base_def cms_url_def
        example_options_def routesRequestUrl_def firstRoutesUrl_def buildRoutesUrl_def
        String_of_int_def digits.simps)
  have f2: "fetcher string_data_feed ?u = Some (ok_response (JObj [(''data'', JStr ''oops'')]))"
    by (simp add: string_data_feed_def)
  have u3: "routesRequestUrl array_body_feed example_options = Inr ?u"
    by (simp add: array_body_feed_def example_newURL_def example_newURL_base_def cms_url_def
        example_options_def routesRequestUrl_def firstRoutesUrl_def buildRoutesUrl_def
        String_of_int_def digits.simps)
  have f3: "fetcher array_body_feed ?u
              = Some (ok_response (JArr [JObj [(''path'', JStr ''/about'')]]))"
    by (simp add: array_body_feed_def)
  have okr: "\<And>d. ok (ok_response d)" "\<And>d. body (ok_response d) = Some d"
    by (simp_all add: ok_response_def)
  show ?thesis
    using fetchRoutesPage_body_format[OF u1 f1 okr(1) okr(2)]
      fetchRoutesPage_body_format[OF u2 f2 okr(1) okr(2)]
      fetchRoutesPage_body_format[OF u3 f3 okr(1) okr(2)]
    by simp
qed

text \<open>
  Claim C4 as the specification words it fails: the body \<^verbatim>\<open>{"data": "oops"}\<close> has a \<^verbatim>\<open>data\<close>
  member that is not a sequence, and \<^verbatim>\<open>fetchRoutesPage\<close> returns an empty page.
\<close>

theorem fetchRoutesPage_data_not_array_counterexample:
  "body (ok_response (JObj [(''data'', JStr ''oops'')])) = Some (JObj [(''data'', JStr ''oops'')])
   \<and> getProp (JObj [(''data'', JStr ''oops'')]) ''data'' = JStr ''oops''
   \<and> fetchRoutesPage string_data_feed example_options =
     (Inr \<lparr>data = [], links_self = None, links_next = None, meta = JUndefined\<rparr>,
      [cms_url ''/jsonapi/routes'' [(''_format'', ''json''), (''page[limit]'', ''50'')]])"
  by (simp add: string_data_feed_def example_newURL_def example_newURL_base_def cms_url_def
      example_options_def ok_response_def fetchRoutesPage_def routesRequestUrl_def
      firstRoutesUrl_def buildRoutesUrl_def routesPageOfDoc_def getNextLink_def
      String_of_int_def digits.simps)

section \<open>Properties of media classification and file URLs\<close>




lemma resolveFileUrl_value_configured:
  "resolveFileUrl_value (Inr b) (JStr u) = Inr (resolveFileUrl b (Some u))"
  by (simp add: resolveFileUrl_value_def resolveFileUrl_def Let_def)












lemma extractMedia_image_resolved:
  assumes t: "replace_string (res_type m) ''media--'' [] = ''image''"
    and f: "findIncludedByRelationship included (relationship m ''field_media_image'') = Some f"
    and i: "extractImageFromFile cfg (Some f) = Inr (Some fi)"
  shows "extractMedia cfg (Some m) included =
     Inr (Some \<lparr>mtype = MediaImage, name = js_or (attr m ''name'') (JStr []),
                url = Some (src fi),
                image_data = Some (fi
                  \<lparr>alt := js_or (string_or_undefined
                                   (getRelationshipMetaString (relationship m ''field_media_image'') ''alt''))
                            (js_or (alt fi) (js_or (attr m ''name'') (JStr []))),
                   title := js_or (string_or_undefined
                                   (getRelationshipMetaString (relationship m ''field_media_image'') ''title''))
                            (title fi)\<rparr>),
                mimeType = JUndefined, embedUrl = None, resource = m\<rparr>)"
  using t f i by (simp add: extractMedia_def Let_def)

lemma extractImageFromFile_fields:
  assumes "extractImageFromFile cfg (Some f) = Inr (Some fi)"
  shows "getFileUrl cfg (Some f) = Inr (Some (src fi))" "src fi \<noteq> []"
    "alt fi = js_or (attr f ''filename'') (JStr [])"
    "width fi = (if truthy (attr f ''image_style_uri'') then JUndefined else attr f ''width'')"
    "height fi = (if truthy (attr f ''image_style_uri'') then JUndefined else attr f ''height'')"
    "title fi = JUndefined"
  using assms by (auto simp: extractImageFromFile_def split: sum.splits option.splits if_splits)




lemma file_a_image:
  "extractImageFromFile (Inr example_base) (Some file_a) =
     Inr (Some \<lparr>src = ''https://cms.example.com/sites/default/files/a.png'', alt = JStr ''a.png'',
                width = JNum 800, height = JNum 600, title = JUndefined\<rparr>)"
  by (simp add: extractImageFromFile_def getFileUrl_def fileUrlAttribute_def
      resolveFileUrl_value_def resolveFileUrl_def startsWith_def js_or_def attr_def
      file_a_def example_base_def)

lemma file_styled_image:
  "extractImageFromFile (Inr example_base) (Some file_styled) =
     Inr (Some \<lparr>src = ''https://cms.example.com/sites/default/files/b.png'', alt = JStr ''b.png'',
                width = JUndefined, height = JUndefined, title = JUndefined\<rparr>)"
  by (simp add: extractImageFromFile_def getFileUrl_def fileUrlAttribute_def
      resolveFileUrl_value_def resolveFileUrl_def startsWith_def js_or_def attr_def
      file_styled_def example_base_def)



lemma example_included:
  "findIncluded (Some [file_styled, file_a]) ''file--file'' ''f1'' = Some file_a"
  "findIncluded (Some [file_styled, file_a]) ''file--file'' ''f2'' = Some file_styled"
  by (simp_all add: findIncluded_def file_a_def file_styled_def)

lemma image_media_fields:
  "replace_string (res_type (image_media i mv)) ''media--'' [] = ''image''"
  "relationship (image_media i mv) ''field_media_image''
     = Some (RelOne \<lparr>ref_type = ''file--file'', ref_id = i, ref_meta = mv\<rparr>)"
  "attr (image_media i mv) ''name'' = JStr ''Hero''"
  by (simp_all add: image_media_def replace_string_def relationship_def attr_def)


text \<open>
  Claim C7. \<^verbatim>\<open>resolveFileUrl\<close> returns null for null, undefined and the empty string; returns
  an input that starts with \<^verbatim>\<open>http://\<close>, \<^verbatim>\<open>https://\<close> or \<^verbatim>\<open>data:\<close> unchanged; puts \<^verbatim>\<open>https:\<close> in
  front of an input that starts with two slashes; and otherwise appends the input, with a
  leading slash added when it has none, to the base.
\<close>

theorem resolveFileUrl_cases:
  "resolveFileUrl base None = None
   \<and> resolveFileUrl base (Some []) = None
   \<and> (startsWith u ''http://'' \<or> startsWith u ''https://'' \<or> startsWith u ''data:''
        \<longrightarrow> resolveFileUrl base (Some u) = Some u)
   \<and> (startsWith u ''//'' \<longrightarrow> resolveFileUrl base (Some u) = Some (''https:'' @ u))
   \<and> (u \<noteq> [] \<and> \<not> startsWith u ''http://'' \<and> \<not> startsWith u ''https://''
        \<and> \<not> startsWith u ''data:'' \<and> \<not> startsWith u ''//''
        \<longrightarrow> resolveFileUrl base (Some u) = Some (base @ (if startsWith u ''/'' then u else ''/'' @ u)))"
  by (cases u) (auto simp: resolveFileUrl_def startsWith_def Let_def)

text \<open>
  The examples of the specification, a relative path without a leading slash and an
  absolute http URL.
\<close>

theorem resolveFileUrl_cases_witness:
  "resolveFileUrl ''https://cms.example.com'' (Some ''/sites/default/files/a.png'') =
     Some ''https://cms.example.com/sites/default/files/a.png''
   \<and> resolveFileUrl ''https://cms.example.com'' (Some ''sites/default/files/a.png'') =
     Some ''https://cms.example.com/sites/default/files/a.png''
   \<and> resolveFileUrl ''https://cms.example.com'' (Some ''//cdn.example.com/a.png'') =
     Some ''https://cdn.example.com/a.png''
   \<and> resolveFileUrl ''https://cms.example.com'' (Some ''data:image/png;base64,AA=='') =
     Some ''data:image/png;base64,AA==''
   \<and> resolveFileUrl ''https://cms.example.com'' (Some ''http://other.example.com/a.png'') =
     Some ''http://other.example.com/a.png''"
  using resolveFileUrl_cases[of "''https://cms.example.com''" "''/sites/default/files/a.png''"]
    resolveFileUrl_cases[of "''https://cms.example.com''" "''sites/default/files/a.png''"]
    resolveFileUrl_cases[of "''https://cms.example.com''" "''//cdn.example.com/a.png''"]
    resolveFileUrl_cases[of "''https://cms.example.com''" "''data:image/png;base64,AA==''"]
    resolveFileUrl_cases[of "''https://cms.example.com''" "''http://other.example.com/a.png''"]
  by (simp add: startsWith_def)

text \<open>
  Claim C10. The image data that \<^verbatim>\<open>extractImageFromFile\<close> produces for a file whose
  \<^verbatim>\<open>image_style_uri\<close> attribute is truthy has width and height undefined, whatever the
  \<^verbatim>\<open>width\<close> and \<^verbatim>\<open>height\<close> attributes of the file are; when \<^verbatim>\<open>image_style_uri\<close> is absent or
  falsy, width and height are these attributes. The same holds of the image data in the
  descriptor that \<^verbatim>\<open>extractMedia\<close> returns for an image whose file is the resolved one.
\<close>

theorem extractImageFromFile_style_dimensions:
  "(extractImageFromFile cfg (Some f) = Inr (Some img) \<longrightarrow>
      (truthy (attr f ''image_style_uri'') \<longrightarrow> width img = JUndefined \<and> height img = JUndefined)
    \<and> (\<not> truthy (attr f ''image_style_uri'') \<longrightarrow>
          width img = attr f ''width'' \<and> height img = attr f ''height''))
   \<and> (replace_string (res_type m) ''media--'' [] = ''image''
       \<and> findIncludedByRelationship included (relationship m ''field_media_image'') = Some f
       \<and> extractMedia cfg (Some m) included = Inr (Some d) \<and> image_data d = Some mi \<longrightarrow>
      (truthy (attr f ''image_style_uri'') \<longrightarrow> width mi = JUndefined \<and> height mi = JUndefined)
    \<and> (\<not> truthy (attr f ''image_style_uri'') \<longrightarrow>
          width mi = attr f ''width'' \<and> height mi = attr f ''height''))"
proof (intro conjI impI)
  assume "extractImageFromFile cfg (Some f) = Inr (Some img)"
  note fl = extractImageFromFile_fields(4,5)[OF this]
  { assume "truthy (attr f ''image_style_uri'')"
    then show "width img = JUndefined" "height img = JUndefined" using fl by simp_all }
  { assume "\<not> truthy (attr f ''image_style_uri'')"
    then show "width img = attr f ''width''" "height img = attr f ''height''" using fl by simp_all }
next
  assume h: "replace_string (res_type m) ''media--'' [] = ''image''
       \<and> findIncludedByRelationship included (relationship m ''field_media_image'') = Some f
       \<and> extractMedia cfg (Some m) included = Inr (Some d) \<and> image_data d = Some mi"
  then have t: "replace_string (res_type m) ''media--'' [] = ''image''"
    and r: "findIncludedByRelationship included (relationship m ''field_media_image'') = Some f"
    and e: "extractMedia cfg (Some m) included = Inr (Some d)"
    and i: "image_data d = Some mi"
    by simp_all
  have "\<exists>fi. extractImageFromFile cfg (Some f) = Inr (Some fi) \<and> width mi = width fi
       \<and> height mi = height fi"
  proof (cases "extractImageFromFile cfg (Some f)")
    case (Inl err)
    then show ?thesis using e by (simp add: extractMedia_def Let_def t r)
  next
    case (Inr res)
    show ?thesis
    proof (cases res)
      case None
      then have "d = \<lparr>mtype = MediaImage, name = js_or (attr m ''name'') (JStr []), url = None,
          image_data = None, mimeType = JUndefined, embedUrl = None, resource = m\<rparr>"
        using e Inr by (simp add: extractMedia_def Let_def t r)
      then show ?thesis using i by simp
    next
      case (Some fi)
      then show ?thesis
        using e i Inr extractMedia_image_resolved[OF t r, of cfg fi] by auto
    qed
  qed
  then obtain fi where fi: "extractImageFromFile cfg (Some f) = Inr (Some fi)"
    and w: "width mi = width fi" "height mi = height fi" by blast
  note fl = extractImageFromFile_fields(4,5)[OF fi]
  { assume "truthy (attr f ''image_style_uri'')"
    then show "width mi = JUndefined" "height mi = JUndefined" using fl w by simp_all }
  { assume "\<not> truthy (attr f ''image_style_uri'')"
    then show "width mi = attr f ''width''" "height mi = attr f ''height''" using fl w by simp_all }
qed

text \<open>
  The statement at a file with \<^verbatim>\<open>image_style_uri\<close>, width 800 and height 600, at a file
  without \<^verbatim>\<open>image_style_uri\<close>, and at the image media entity of the first.
\<close>

theorem extractImageFromFile_style_dimensions_witness:
  "(\<exists>img. extractImageFromFile (Inr example_base) (Some file_styled) = Inr (Some img)
      \<and> attr file_styled ''width'' = JNum 800 \<and> attr file_styled ''height'' = JNum 600
      \<and> width img = JUndefined \<and> height img = JUndefined)
   \<and> (\<exists>img. extractImageFromFile (Inr example_base) (Some file_a) = Inr (Some img)
      \<and> width img = JNum 800 \<and> height img = JNum 600)
   \<and> (\<exists>d mi. extractMedia (Inr example_base) (Some (image_media ''f2'' JUndefined))
          (Some [file_styled, file_a]) = Inr (Some d)
      \<and> image_data d = Some mi \<and> width mi = JUndefined \<and> height mi = JUndefined)"
proof -
  let ?inc = "Some [file_styled, file_a]"
  let ?m = "image_media ''f2'' JUndefined"
  let ?is = "\<lparr>src = ''https://cms.example.com/sites/default/files/b.png'', alt = JStr ''b.png'',
                width = JUndefined, height = JUndefined, title = JUndefined\<rparr>"
  let ?ia = "\<lparr>src = ''https://cms.example.com/sites/default/files/a.png'', alt = JStr ''a.png'',
                width = JNum 800, height = JNum 600, title = JUndefined\<rparr>"
  have ts: "truthy (attr file_styled ''image_style_uri'')"
    and ta: "\<not> truthy (attr file_a ''image_style_uri'')"
    and ws: "attr file_styled ''width'' = JNum 800" "attr file_styled ''height'' = JNum 600"
    and wa: "attr file_a ''width'' = JNum 800" "attr file_a ''height'' = JNum 600"
    by (simp_all add: attr_def file_styled_def file_a_def)
  have a: "width ?is = JUndefined \<and> height ?is = JUndefined"
    using extractImageFromFile_style_dimensions[THEN conjunct1, rule_format,
        OF file_styled_image, THEN conjunct1, rule_format, OF ts] .
  have b: "width ?ia = attr file_a ''width'' \<and> height ?ia = attr file_a ''height''"
    using extractImageFromFile_style_dimensions[THEN conjunct1, rule_format,
        OF file_a_image, THEN conjunct2, rule_format, OF ta] .
  have res: "findIncludedByRelationship ?inc (relationship ?m ''field_media_image'') = Some file_styled"
    by (simp add: findIncludedByRelationship_def image_media_fields example_included)
  let ?d = "\<lparr>mtype = MediaImage, name = js_or (attr ?m ''name'') (JStr []),
                url = Some (src ?is),
                image_data = Some (?is
                  \<lparr>alt := js_or (string_or_undefined
                                   (getRelationshipMetaString (relationship ?m ''field_media_image'') ''alt''))
                            (js_or (alt ?is) (js_or (attr ?m ''name'') (JStr []))),
                   title := js_or (string_or_undefined
                                   (getRelationshipMetaString (relationship ?m ''field_media_image'') ''title''))
                            (title ?is)\<rparr>),
                mimeType = JUndefined, embedUrl = None, resource = ?m\<rparr>"
  have d: "extractMedia (Inr example_base) (Some ?m) ?inc = Inr (Some ?d)"
    by (rule extractMedia_image_resolved[OF image_media_fields(1) res file_styled_image])
  obtain mi where mi: "image_data ?d = Some mi" by simp
  have c: "width mi = JUndefined \<and> height mi = JUndefined"
    using extractImageFromFile_style_dimensions[THEN conjunct2, rule_format,
        of ?m ?inc file_styled "Inr example_base" ?d mi, THEN conjunct1, rule_format, OF _ ts]
      image_media_fields(1) res d mi by blast
  show ?thesis
    using a b c d mi file_styled_image file_a_image ws wa by auto
qed

section \<open>Properties of string search and of the scan for embedded media\<close>

lemma prefix_take_sublist:
  assumes "prefix pat s" "length pat \<le> n"
  shows "prefix pat (take n s)"
  using assms by (auto simp: prefix_def)

lemma find_sub_first:
  assumes "\<not> sublist pat (a @ butlast pat)" "pat \<noteq> []"
  shows "find_sub pat (a @ pat @ b) = Some (length a)"
  using assms
proof (induction a)
  case Nil
  then show ?case by (cases pat) simp_all
next
  case (Cons x a)
  have np: "\<not> prefix pat (x # a @ pat @ b)"
  proof
    assume p: "prefix pat (x # a @ pat @ b)"
    have len: "length pat \<le> length ((x # a) @ butlast pat)" using Cons.prems(2) by simp
    have "take (length ((x # a) @ butlast pat)) (x # a @ pat @ b) = (x # a) @ butlast pat"
      using Cons.prems(2) by (simp add: butlast_conv_take)
    then have "prefix pat ((x # a) @ butlast pat)"
      using prefix_take_sublist[OF p len] by simp
    then show False using Cons.prems(1) by (auto dest: prefix_imp_sublist)
  qed
  have "\<not> sublist pat (a @ butlast pat)"
    using Cons.prems(1) by (auto simp: sublist_Cons_right)
  then have "find_sub pat (a @ pat @ b) = Some (length a)"
    using Cons.IH Cons.prems(2) by simp
  then show ?case using np by simp
qed

lemma find_sub_None: "\<not> sublist pat s \<Longrightarrow> find_sub pat s = None"
proof (induction s)
  case Nil
  then show ?case by auto
next
  case (Cons c s)
  then have "\<not> prefix pat (c # s)" by (auto dest: prefix_imp_sublist)
  moreover have "\<not> sublist pat s" using Cons.prems by (auto simp: sublist_Cons_right)
  ultimately show ?case using Cons.IH by simp
qed


lemma find_sub_None_sublist: "find_sub pat s = None \<Longrightarrow> \<not> sublist pat s"
proof (induction s)
  case Nil
  then show ?case by (auto split: if_splits)
next
  case (Cons c s)
  then show ?case by (auto split: if_splits simp: sublist_Cons_right)
qed


lemma find_sub_char:
  "c \<notin> set u \<Longrightarrow> find_sub [c] (u @ c # r) = Some (length u)"
  by (induction u) auto

lemma find_sub_char_None:
  "c \<notin> set u \<Longrightarrow> find_sub [c] u = None"
  by (induction u) auto

text \<open>A pattern whose first character does not occur again in it cannot overlap itself.\<close>

lemma no_overlap_first:
  assumes "\<not> sublist pat a" "pat \<noteq> []" "hd pat \<notin> set (tl pat)"
  shows "\<not> sublist pat (a @ butlast pat)"
proof
  assume "sublist pat (a @ butlast pat)"
  then obtain x y where xy: "a @ butlast pat = x @ pat @ y" by (auto simp: sublist_def)
  obtain h t where pat: "pat = h # t" using assms(2) by (cases pat) auto
  show False
  proof (cases "length x + length pat \<le> length a")
    case True
    then have "take (length x + length pat) (a @ butlast pat) = take (length x + length pat) a"
      by simp
    moreover have "take (length x + length pat) (x @ pat @ y) = x @ pat" by simp
    ultimately have "take (length x + length pat) a = x @ pat" using xy by simp
    then have "a = x @ pat @ drop (length x + length pat) a"
      by (metis append_take_drop_id append.assoc)
    then have "sublist pat a" unfolding sublist_def by blast
    then show False using assms(1) by simp
  next
    case False
    have lp: "0 < length pat" using assms(2) by simp
    have lx: "length x < length a"
    proof -
      have "length (a @ butlast pat) = length (x @ pat @ y)" using xy by simp
      then have "length a + (length pat - 1) = length x + length pat + length y" by simp
      then show ?thesis using lp by linarith
    qed
    let ?k = "length a - length x"
    have k: "0 < ?k" "?k < length pat" using lx False by simp_all
    have bl: "butlast pat \<noteq> []"
    proof
      assume "butlast pat = []"
      then have "a = x @ pat @ y" using xy by simp
      then show False using False by simp
    qed
    have "(a @ butlast pat) ! length a = hd (butlast pat)"
      using bl by (simp add: nth_append hd_conv_nth)
    moreover have "hd (butlast pat) = h" using bl pat by (cases t) simp_all
    moreover have "(x @ pat @ y) ! length a = pat ! ?k"
      using lx k by (simp add: nth_append)
    ultimately have "pat ! ?k = h" using xy by simp
    then have "t ! (?k - 1) = h" using pat k by (simp add: nth_Cons')
    moreover have "?k - 1 < length t" using k pat by simp
    ultimately have "h \<in> set t" by (metis nth_mem)
    then show False using assms(3) pat by simp
  qed
qed

text \<open>A pattern whose last character does not occur before in it cannot overlap itself.\<close>

lemma no_overlap_last:
  assumes "\<not> sublist pat a" "pat \<noteq> []" "last pat \<notin> set (butlast pat)"
  shows "\<not> sublist pat (a @ butlast pat)"
proof
  assume "sublist pat (a @ butlast pat)"
  then obtain x y where xy: "a @ butlast pat = x @ pat @ y" by (auto simp: sublist_def)
  show False
  proof (cases "length x + length pat \<le> length a")
    case True
    then have "take (length x + length pat) (a @ butlast pat) = take (length x + length pat) a"
      by simp
    moreover have "take (length x + length pat) (x @ pat @ y) = x @ pat" by simp
    ultimately have "take (length x + length pat) a = x @ pat" using xy by simp
    then have "a = x @ pat @ drop (length x + length pat) a"
      by (metis append_take_drop_id append.assoc)
    then have "sublist pat a" unfolding sublist_def by blast
    then show False using assms(1) by simp
  next
    case False
    let ?k = "length x + length pat - 1"
    have k: "length a \<le> ?k" using False by simp
    have lp: "0 < length pat" using assms(2) by simp
    have kl: "?k < length (a @ butlast pat)"
    proof -
      have "length (a @ butlast pat) = length (x @ pat @ y)" using xy by simp
      then have "length (a @ butlast pat) = length x + length pat + length y" by simp
      then show ?thesis using lp by linarith
    qed
    have kx: "\<not> ?k < length x" "?k - length x = length pat - 1" "length pat - 1 < length pat"
      using lp by linarith+
    have "(x @ pat @ y) ! ?k = pat ! (length pat - 1)"
      using kx by (simp add: nth_append)
    then have "(x @ pat @ y) ! ?k = last pat"
      using assms(2) by (simp add: last_conv_nth)
    moreover have "(a @ butlast pat) ! ?k = butlast pat ! (?k - length a)"
      using k by (simp add: nth_append)
    moreover have "?k - length a < length (butlast pat)" using k kl by simp
    moreover note \<open>(x @ pat @ y) ! ?k = last pat\<close>
    ultimately have "butlast pat ! (?k - length a) = last pat"
      "?k - length a < length (butlast pat)" using xy by simp_all
    then have "last pat \<in> set (butlast pat)" using nth_mem by metis
    then show False using assms(3) by simp
  qed
qed

lemma find_sub_bound: "find_sub pat s = Some i \<Longrightarrow> i + length pat \<le> length s"
proof (induction s arbitrary: i)
  case Nil
  then show ?case by (auto split: if_splits)
next
  case (Cons c s)
  show ?case
  proof (cases "prefix pat (c # s)")
    case True
    then show ?thesis using Cons.prems prefix_length_le by fastforce
  next
    case False
    then obtain j where "find_sub pat s = Some j" "i = Suc j" using Cons.prems by auto
    then show ?thesis using Cons.IH by simp
  qed
qed

lemma indexOf_drop:
  "index \<le> length html \<Longrightarrow>
     indexOf html pat index = map_option (\<lambda>i. index + i) (find_sub pat (drop index html))"
  by (simp add: indexOf_def Let_def min_def)

lemma parseDrupalMediaTag_nonempty: "parseDrupalMediaTag t \<noteq> Some []"
  by (simp add: parseDrupalMediaTag_def Let_def split: option.splits)

text \<open>One round of the loop, on the text that is left.\<close>

lemma scanDrupalMedia_round:
  assumes "index \<le> length html"
  shows "scanDrupalMedia html index =
    (let s = drop index html in
     if s = [] then []
     else (case find_sub ''<drupal-media'' s of
             None \<Rightarrow> []
           | Some i \<Rightarrow>
              (case find_sub ''>'' (drop i s) of
                 None \<Rightarrow> []
               | Some k \<Rightarrow>
                  (case parseDrupalMediaTag (take (k + 1) (drop i s)) of
                     Some u \<Rightarrow> [u] | None \<Rightarrow> [])
                  @ scanDrupalMedia html (index + i + k + 1))))"
proof (cases "index < length html")
  case False
  then show ?thesis by (simp add: scanDrupalMedia.simps[of html index])
next
  case True
  let ?s = "drop index html"
  have ne: "?s \<noteq> []" using True by simp
  show ?thesis
  proof (cases "find_sub ''<drupal-media'' ?s")
    case None
    then show ?thesis
      using True ne by (simp add: scanDrupalMedia.simps[of html index] indexOf_drop)
  next
    case (Some i)
    have ib: "index + i \<le> length html" using find_sub_bound[OF Some] by simp
    have dd: "drop i ?s = drop (index + i) html" by (simp add: add.commute)
    show ?thesis
    proof (cases "find_sub ''>'' (drop i ?s)")
      case None
      then show ?thesis
        using True ne Some ib dd
        by (simp add: scanDrupalMedia.simps[of html index] indexOf_drop)
    next
      case k: (Some k)
      have sl: "slice html (index + i) (index + i + k + 1 ) = take (k + 1) (drop i ?s)"
        by (simp add: slice_def add.commute)
      show ?thesis
        using True ne Some ib dd k sl parseDrupalMediaTag_nonempty
        by (simp add: scanDrupalMedia.simps[of html index] indexOf_drop add.assoc
            split: option.splits)
    qed
  qed
qed

lemma scanDrupalMedia_shift:
  "index \<le> length html \<Longrightarrow> scanDrupalMedia html index = scanDrupalMedia (drop index html) 0"
proof (induction "length html - index" arbitrary: html index rule: less_induct)
  case less
  let ?s = "drop index html"
  show ?case
  proof (cases "?s = []")
    case True
    then show ?thesis
      using less.prems by (simp add: scanDrupalMedia_round Let_def)
  next
    case ne: False
    show ?thesis
    proof (cases "find_sub ''<drupal-media'' ?s")
      case None
      then show ?thesis using less.prems ne by (simp add: scanDrupalMedia_round Let_def)
    next
      case (Some i)
      show ?thesis
      proof (cases "find_sub ''>'' (drop i ?s)")
        case None
        then show ?thesis using less.prems ne Some by (simp add: scanDrupalMedia_round Let_def)
      next
        case k: (Some k)
        have kb: "k + 1 \<le> length (drop i ?s)" using find_sub_bound[OF k] by simp
        then have b1: "index + i + k + 1 \<le> length html" by simp
        have b2: "i + k + 1 \<le> length ?s" using kb by simp
        have m1: "length html - (index + i + k + 1) < length html - index" using b1 by simp
        have m2: "length ?s - (i + k + 1) < length html - index" using b2 by simp
        have "scanDrupalMedia html (index + i + k + 1) = scanDrupalMedia (drop (index + i + k + 1) html) 0"
          using less.hyps[OF m1 b1] .
        moreover have "scanDrupalMedia ?s (i + k + 1) = scanDrupalMedia (drop (i + k + 1) ?s) 0"
          using less.hyps[OF m2 b2] .
        moreover have "drop (i + k + 1) ?s = drop (index + i + k + 1) html"
          by (simp add: add.commute add.left_commute)
        ultimately have eq: "scanDrupalMedia html (index + i + k + 1) = scanDrupalMedia ?s (0 + i + k + 1)"
          by simp
        have l: "scanDrupalMedia html index =
            (case parseDrupalMediaTag (take (k + 1) (drop i ?s)) of Some u \<Rightarrow> [u] | None \<Rightarrow> [])
            @ scanDrupalMedia html (index + i + k + 1)"
          using less.prems ne Some k by (simp add: scanDrupalMedia_round Let_def)
        have r: "scanDrupalMedia ?s 0 =
            (case parseDrupalMediaTag (take (k + 1) (drop i ?s)) of Some u \<Rightarrow> [u] | None \<Rightarrow> [])
            @ scanDrupalMedia ?s (0 + i + k + 1)"
          using ne Some k by (simp add: scanDrupalMedia_round[of 0 ?s] Let_def)
        show ?thesis using l r eq by simp
      qed
    qed
  qed
qed

lemma drop_past: "drop (length x + length y + 1) (x @ y @ c # z) = z"
  by simp

lemma tagStart_first:
  "\<not> sublist ''<drupal-media'' a \<Longrightarrow> find_sub ''<drupal-media'' (a @ ''<drupal-media'' @ b) = Some (length a)"
  by (rule find_sub_first[OF no_overlap_first]) simp_all

lemma scan_no_tag:
  "\<not> sublist ''<drupal-media'' html \<Longrightarrow> extractEmbeddedMediaUuids html = []"
  by (simp add: extractEmbeddedMediaUuids_def scanDrupalMedia_round Let_def find_sub_None)

lemma scan_unterminated:
  assumes "\<not> sublist ''<drupal-media'' a" "CHR ''>'' \<notin> set b"
  shows "extractEmbeddedMediaUuids (a @ ''<drupal-media'' @ b) = []"
proof -
  have "find_sub ''>'' (''<drupal-media'' @ b) = None"
    using assms(2) by (intro find_sub_char_None) simp
  then show ?thesis
    using tagStart_first[OF assms(1), of b]
    by (simp add: extractEmbeddedMediaUuids_def scanDrupalMedia_round Let_def)
qed

lemma scan_tag:
  assumes "\<not> sublist ''<drupal-media'' a" "CHR ''>'' \<notin> set b"
  shows "extractEmbeddedMediaUuids (a @ ''<drupal-media'' @ b @ ''>'' @ rest) =
     (case parseDrupalMediaTag (''<drupal-media'' @ b @ ''>'') of Some u \<Rightarrow> [u] | None \<Rightarrow> [])
     @ extractEmbeddedMediaUuids rest"
proof -
  let ?T = "''<drupal-media''"
  let ?html = "a @ ?T @ b @ ''>'' @ rest"
  have f: "find_sub ?T ?html = Some (length a)"
    using tagStart_first[OF assms(1), of "b @ ''>'' @ rest"] by simp
  have "find_sub ''>'' ((?T @ b) @ CHR ''>'' # rest) = Some (length (?T @ b))"
    using assms(2) by (intro find_sub_char) simp
  then have g: "find_sub ''>'' (drop (length a) ?html) = Some (length (?T @ b))" by simp
  have t: "take (length (?T @ b) + 1) (drop (length a) ?html) = ?T @ b @ ''>''" by simp
  have shape: "?html = a @ (?T @ b) @ CHR ''>'' # rest" by simp
  have "drop (length a + length (?T @ b) + 1) (a @ (?T @ b) @ CHR ''>'' # rest) = rest"
    by (rule drop_past)
  then have "drop (0 + length a + length (?T @ b) + 1) ?html = rest"
    unfolding shape by simp
  then have sh: "scanDrupalMedia ?html (0 + length a + length (?T @ b) + 1) = scanDrupalMedia rest 0"
    using scanDrupalMedia_shift[of "0 + length a + length (?T @ b) + 1" ?html] by simp
  have "scanDrupalMedia ?html 0 =
     (case parseDrupalMediaTag (?T @ b @ ''>'') of Some u \<Rightarrow> [u] | None \<Rightarrow> [])
     @ scanDrupalMedia ?html (0 + length a + length (?T @ b) + 1)"
    using f g t by (simp add: scanDrupalMedia_round[of 0 ?html] Let_def del: append.simps length_append)
  then show ?thesis using sh by (simp add: extractEmbeddedMediaUuids_def)
qed

lemma skipWhitespace_run:
  assumes "\<forall>c \<in> set w. whitespace c" "\<not> whitespace q"
  shows "skipWhitespace (x @ w @ q # y) (length x) = length x + length w"
  using assms
proof (induction w arbitrary: x)
  case Nil
  then show ?case by (simp add: skipWhitespace.simps[of _ "length x"])
next
  case (Cons v w)
  have "skipWhitespace ((x @ [v]) @ w @ q # y) (length (x @ [v])) = length (x @ [v]) + length w"
    using Cons.IH[of "x @ [v]"] Cons.prems by simp
  then show ?case
    using Cons.prems by (simp add: skipWhitespace.simps[of _ "length x"])
qed

lemma slice_empty: "slice s a a = []"
  by (simp add: slice_def)

lemma attr_first:
  "\<not> sublist ''data-entity-uuid='' p \<Longrightarrow>
     find_sub ''data-entity-uuid='' (p @ ''data-entity-uuid='' @ t) = Some (length p)"
  by (rule find_sub_first[OF no_overlap_last]) simp_all

lemma parseDrupalMediaTag_no_attr:
  "\<not> sublist ''data-entity-uuid='' t \<Longrightarrow> parseDrupalMediaTag t = None"
  by (simp add: parseDrupalMediaTag_def indexOf_def find_sub_None)

lemma parseDrupalMediaTag_quoted:
  assumes p: "\<not> sublist ''data-entity-uuid='' p"
    and w: "\<forall>c \<in> set w. whitespace c"
    and q: "q = CHR 0x22 \<or> q = CHR 0x27"
    and u: "q \<notin> set u"
  shows "parseDrupalMediaTag (p @ ''data-entity-uuid='' @ w @ q # u @ q # r) =
           (if u = [] then None else Some u)"
proof -
  define t where "t = p @ ''data-entity-uuid='' @ w @ q # u @ q # r"
  define i where "i = length (p @ ''data-entity-uuid='') + length w"
  have nq: "\<not> whitespace q" using q by (auto simp: whitespace_def)
  have s: "indexOf t ''data-entity-uuid='' 0 = Some (length p)"
    using attr_first[OF p] by (simp add: indexOf_def t_def)
  have "skipWhitespace ((p @ ''data-entity-uuid='') @ w @ q # (u @ q # r))
          (length (p @ ''data-entity-uuid='')) = i"
    unfolding i_def by (rule skipWhitespace_run[OF w nq])
  then have k: "skipWhitespace t (length p + length ''data-entity-uuid='') = i"
    by (simp add: t_def)
  have shape: "t = (p @ ''data-entity-uuid='' @ w) @ q # u @ q # r" by (simp add: t_def)
  have il: "i < length t" by (simp add: t_def i_def)
  have at: "t ! i = q"
    unfolding shape i_def by (simp add: nth_append del: append.simps append_assoc)
  have dr: "drop (i + 1) t = u @ q # r"
    unfolding shape i_def by (simp del: append.simps append_assoc)
  have "i + 1 \<le> length t" using il by simp
  then have "indexOf t [q] (i + 1) = map_option (\<lambda>j. i + 1 + j) (find_sub [q] (drop (i + 1) t))"
    by (rule indexOf_drop)
  then have e: "indexOf t [q] (i + 1) = Some (i + 1 + length u)"
    unfolding dr using find_sub_char[OF u, of r] by simp
  have sl: "slice t (i + 1) (i + 1 + length u) = u"
    using dr by (simp add: slice_def)
  note k' = k[simplified] and e' = e[simplified] and sl' = sl[simplified]
  have "parseDrupalMediaTag t = (if u = [] then None else Some u)"
    using q by (auto simp add: parseDrupalMediaTag_def Let_def s k' il at e' sl' slice_empty)
  then show ?thesis by (simp add: t_def)
qed

lemma skipWhitespace_end:
  assumes "\<forall>c \<in> set w. whitespace c"
  shows "skipWhitespace (x @ w) (length x) = length x + length w"
  using assms
proof (induction w arbitrary: x)
  case Nil
  then show ?case by (simp add: skipWhitespace.simps[of _ "length x"])
next
  case (Cons v w)
  have "skipWhitespace ((x @ [v]) @ w) (length (x @ [v])) = length (x @ [v]) + length w"
    using Cons.IH[of "x @ [v]"] Cons.prems by simp
  then show ?case
    using Cons.prems by (simp add: skipWhitespace.simps[of _ "length x"])
qed

lemma parseDrupalMediaTag_no_value:
  assumes p: "\<not> sublist ''data-entity-uuid='' p"
    and w: "\<forall>c \<in> set w. whitespace c"
  shows "parseDrupalMediaTag (p @ ''data-entity-uuid='' @ w) = None"
proof -
  define t where "t = p @ ''data-entity-uuid='' @ w"
  have s: "indexOf t ''data-entity-uuid='' 0 = Some (length p)"
    using attr_first[OF p] by (simp add: indexOf_def t_def)
  have "skipWhitespace ((p @ ''data-entity-uuid='') @ w) (length (p @ ''data-entity-uuid=''))
          = length (p @ ''data-entity-uuid='') + length w"
    by (rule skipWhitespace_end[OF w])
  then have k: "skipWhitespace t (length p + length ''data-entity-uuid='') = length t"
    by (simp add: t_def)
  note k' = k[simplified]
  have "parseDrupalMediaTag t = None"
    by (simp add: parseDrupalMediaTag_def Let_def s k')
  then show ?thesis by (simp add: t_def)
qed

lemma parseDrupalMediaTag_unquoted:
  assumes p: "\<not> sublist ''data-entity-uuid='' p"
    and w: "\<forall>c \<in> set w. whitespace c"
    and c: "\<not> whitespace c" "c \<noteq> CHR 0x22" "c \<noteq> CHR 0x27"
  shows "parseDrupalMediaTag (p @ ''data-entity-uuid='' @ w @ c # r) = None"
proof -
  define t where "t = p @ ''data-entity-uuid='' @ w @ c # r"
  define i where "i = length (p @ ''data-entity-uuid='') + length w"
  have s: "indexOf t ''data-entity-uuid='' 0 = Some (length p)"
    using attr_first[OF p] by (simp add: indexOf_def t_def)
  have "skipWhitespace ((p @ ''data-entity-uuid='') @ w @ c # r)
          (length (p @ ''data-entity-uuid='')) = i"
    unfolding i_def by (rule skipWhitespace_run[OF w c(1)])
  then have k: "skipWhitespace t (length p + length ''data-entity-uuid='') = i"
    by (simp add: t_def)
  have shape: "t = (p @ ''data-entity-uuid='' @ w) @ c # r" by (simp add: t_def)
  have il: "i < length t" by (simp add: t_def i_def)
  have at: "t ! i = c"
    unfolding shape i_def by (simp add: nth_append del: append.simps append_assoc)
  note k' = k[simplified]
  have "parseDrupalMediaTag t = None"
    using c by (simp add: parseDrupalMediaTag_def Let_def s k' il at)
  then show ?thesis by (simp add: t_def)
qed

lemma parseDrupalMediaTag_unclosed:
  assumes p: "\<not> sublist ''data-entity-uuid='' p"
    and w: "\<forall>c \<in> set w. whitespace c"
    and q: "q = CHR 0x22 \<or> q = CHR 0x27"
    and u: "q \<notin> set u"
  shows "parseDrupalMediaTag (p @ ''data-entity-uuid='' @ w @ q # u) = None"
proof -
  define t where "t = p @ ''data-entity-uuid='' @ w @ q # u"
  define i where "i = length (p @ ''data-entity-uuid='') + length w"
  have nq: "\<not> whitespace q" using q by (auto simp: whitespace_def)
  have s: "indexOf t ''data-entity-uuid='' 0 = Some (length p)"
    using attr_first[OF p] by (simp add: indexOf_def t_def)
  have "skipWhitespace ((p @ ''data-entity-uuid='') @ w @ q # u)
          (length (p @ ''data-entity-uuid='')) = i"
    unfolding i_def by (rule skipWhitespace_run[OF w nq])
  then have k: "skipWhitespace t (length p + length ''data-entity-uuid='') = i"
    by (simp add: t_def)
  have shape: "t = (p @ ''data-entity-uuid='' @ w) @ q # u" by (simp add: t_def)
  have il: "i < length t" by (simp add: t_def i_def)
  have at: "t ! i = q"
    unfolding shape i_def by (simp add: nth_append del: append.simps append_assoc)
  have dr: "drop (i + 1) t = u"
    unfolding shape i_def by (simp del: append.simps append_assoc)
  have "i + 1 \<le> length t" using il by simp
  then have "indexOf t [q] (i + 1) = map_option (\<lambda>j. i + 1 + j) (find_sub [q] (drop (i + 1) t))"
    by (rule indexOf_drop)
  then have e: "indexOf t [q] (i + 1) = None"
    unfolding dr using find_sub_char_None[OF u] by simp
  note k' = k[simplified] and e' = e[simplified]
  have "parseDrupalMediaTag t = None"
    using q by (auto simp add: parseDrupalMediaTag_def Let_def s k' il at e')
  then show ?thesis by (simp add: t_def)
qed


text \<open>
  Claim C9, as the code has it. The scan takes the first occurrence of the tag opening
  \<^verbatim>\<open><drupal-media\<close> and the first closing angle bracket after it, wherever that bracket
  stands: the text from the one to the other is the tag. The tag contributes the value
  that \<^verbatim>\<open>parseDrupalMediaTag\<close> finds in it, or nothing, and the scan goes on in the same
  way after the bracket, so the values come in document order and repeated values are
  kept. A text without the tag opening, and a tag opening with no closing bracket anywhere
  after it, give no value. \<^verbatim>\<open>parseDrupalMediaTag\<close> gives nothing for a tag
  without the text \<^verbatim>\<open>data-entity-uuid=\<close>; if the first occurrence of that text is followed by
  optional white space and a value between two double or two single quotes, it gives the
  value, unless the value is empty. In every other case it gives nothing: when the tag
  ends after the optional white space, when the next character is not a quote (an
  unquoted value), and when the opening quote is not closed by the same quote.
\<close>

theorem extractEmbeddedMediaUuids_scan:
  "(\<not> sublist ''<drupal-media'' html \<longrightarrow> extractEmbeddedMediaUuids html = [])
   \<and> (\<not> sublist ''<drupal-media'' a \<and> CHR ''>'' \<notin> set b \<longrightarrow>
        extractEmbeddedMediaUuids (a @ ''<drupal-media'' @ b) = []
      \<and> extractEmbeddedMediaUuids (a @ ''<drupal-media'' @ b @ ''>'' @ rest) =
          (case parseDrupalMediaTag (''<drupal-media'' @ b @ ''>'') of
             Some u \<Rightarrow> [u] | None \<Rightarrow> [])
          @ extractEmbeddedMediaUuids rest)
   \<and> (\<not> sublist ''data-entity-uuid='' t \<longrightarrow> parseDrupalMediaTag t = None)
   \<and> (\<not> sublist ''data-entity-uuid='' p \<and> (\<forall>c \<in> set w. whitespace c)
        \<and> (q = CHR 0x22 \<or> q = CHR 0x27) \<and> q \<notin> set u \<longrightarrow>
        parseDrupalMediaTag (p @ ''data-entity-uuid='' @ w @ q # u @ q # r) =
          (if u = [] then None else Some u))
   \<and> (\<not> sublist ''data-entity-uuid='' p \<and> (\<forall>c \<in> set w. whitespace c) \<longrightarrow>
        parseDrupalMediaTag (p @ ''data-entity-uuid='' @ w) = None)
   \<and> (\<not> sublist ''data-entity-uuid='' p \<and> (\<forall>c \<in> set w. whitespace c)
        \<and> \<not> whitespace x \<and> x \<noteq> CHR 0x22 \<and> x \<noteq> CHR 0x27 \<longrightarrow>
        parseDrupalMediaTag (p @ ''data-entity-uuid='' @ w @ x # r) = None)
   \<and> (\<not> sublist ''data-entity-uuid='' p \<and> (\<forall>c \<in> set w. whitespace c)
        \<and> (q = CHR 0x22 \<or> q = CHR 0x27) \<and> q \<notin> set u \<longrightarrow>
        parseDrupalMediaTag (p @ ''data-entity-uuid='' @ w @ q # u) = None)"
proof (intro conjI impI)
  show "extractEmbeddedMediaUuids html = []" if "\<not> sublist ''<drupal-media'' html"
    using that by (rule scan_no_tag)
  show "extractEmbeddedMediaUuids (a @ ''<drupal-media'' @ b) = []"
    if h: "\<not> sublist ''<drupal-media'' a \<and> CHR ''>'' \<notin> set b"
    by (rule scan_unterminated[OF h[THEN conjunct1] h[THEN conjunct2]])
  show "extractEmbeddedMediaUuids (a @ ''<drupal-media'' @ b @ ''>'' @ rest) =
          (case parseDrupalMediaTag (''<drupal-media'' @ b @ ''>'') of
             Some u \<Rightarrow> [u] | None \<Rightarrow> [])
          @ extractEmbeddedMediaUuids rest"
    if h: "\<not> sublist ''<drupal-media'' a \<and> CHR ''>'' \<notin> set b"
    by (rule scan_tag[OF h[THEN conjunct1] h[THEN conjunct2]])
  show "parseDrupalMediaTag t = None" if "\<not> sublist ''data-entity-uuid='' t"
    using that by (rule parseDrupalMediaTag_no_attr)
  show "parseDrupalMediaTag (p @ ''data-entity-uuid='' @ w @ q # u @ q # r) =
          (if u = [] then None else Some u)"
    if h: "\<not> sublist ''data-entity-uuid='' p \<and> (\<forall>c \<in> set w. whitespace c)
        \<and> (q = CHR 0x22 \<or> q = CHR 0x27) \<and> q \<notin> set u"
    by (rule parseDrupalMediaTag_quoted[OF h[THEN conjunct1] h[THEN conjunct2, THEN conjunct1]
          h[THEN conjunct2, THEN conjunct2, THEN conjunct1]
          h[THEN conjunct2, THEN conjunct2, THEN conjunct2]])
  show "parseDrupalMediaTag (p @ ''data-entity-uuid='' @ w) = None"
    if h: "\<not> sublist ''data-entity-uuid='' p \<and> (\<forall>c \<in> set w. whitespace c)"
    by (rule parseDrupalMediaTag_no_value[OF h[THEN conjunct1] h[THEN conjunct2]])
  show "parseDrupalMediaTag (p @ ''data-entity-uuid='' @ w @ x # r) = None"
    if h: "\<not> sublist ''data-entity-uuid='' p \<and> (\<forall>c \<in> set w. whitespace c)
        \<and> \<not> whitespace x \<and> x \<noteq> CHR 0x22 \<and> x \<noteq> CHR 0x27"
    by (rule parseDrupalMediaTag_unquoted[OF h[THEN conjunct1] h[THEN conjunct2, THEN conjunct1]
          h[THEN conjunct2, THEN conjunct2, THEN conjunct1]
          h[THEN conjunct2, THEN conjunct2, THEN conjunct2, THEN conjunct1]
          h[THEN conjunct2, THEN conjunct2, THEN conjunct2, THEN conjunct2]])
  show "parseDrupalMediaTag (p @ ''data-entity-uuid='' @ w @ q # u) = None"
    if h: "\<not> sublist ''data-entity-uuid='' p \<and> (\<forall>c \<in> set w. whitespace c)
        \<and> (q = CHR 0x22 \<or> q = CHR 0x27) \<and> q \<notin> set u"
    by (rule parseDrupalMediaTag_unclosed[OF h[THEN conjunct1] h[THEN conjunct2, THEN conjunct1]
          h[THEN conjunct2, THEN conjunct2, THEN conjunct1]
          h[THEN conjunct2, THEN conjunct2, THEN conjunct2]])
qed


text \<open>
  The statement at a text without a tag, at a tag with no closing bracket after it, at
  the example of the specification, at a tag without the attribute, at a tag that ends
  with the attribute name, at an unquoted value and at a value whose quote is not closed.
\<close>

theorem extractEmbeddedMediaUuids_scan_witness:
  \<open>extractEmbeddedMediaUuids ''<p>Hello</p>'' = []
   \<and> extractEmbeddedMediaUuids ''<p><drupal-media data-entity-uuid="abc-123"'' = []
   \<and> extractEmbeddedMediaUuids
        ''<p><drupal-media data-entity-uuid="abc-123" data-align="center"></drupal-media></p>''
       = [''abc-123'']
   \<and> parseDrupalMediaTag ''<drupal-media data-align="center">'' = None
   \<and> parseDrupalMediaTag ''<drupal-media data-entity-uuid= '' = None
   \<and> parseDrupalMediaTag ''<drupal-media data-entity-uuid=abc-123>'' = None
   \<and> parseDrupalMediaTag ''<drupal-media data-entity-uuid="abc-123>'' = None\<close>
proof -
  note scan = extractEmbeddedMediaUuids_scan
  note no_tag = scan[THEN conjunct1, THEN mp]
    and tag = scan[THEN conjunct2, THEN conjunct1, THEN mp]
    and no_attr = scan[THEN conjunct2, THEN conjunct2, THEN conjunct1, THEN mp]
    and quoted = scan[THEN conjunct2, THEN conjunct2, THEN conjunct2, THEN conjunct1, THEN mp]
    and no_value = scan[THEN conjunct2, THEN conjunct2, THEN conjunct2, THEN conjunct2,
        THEN conjunct1, THEN mp]
    and unquoted = scan[THEN conjunct2, THEN conjunct2, THEN conjunct2, THEN conjunct2,
        THEN conjunct2, THEN conjunct1, THEN mp]
    and unclosed = scan[THEN conjunct2, THEN conjunct2, THEN conjunct2, THEN conjunct2,
        THEN conjunct2, THEN conjunct2, THEN mp]
  have n1: "\<not> sublist ''<drupal-media'' ''<p>Hello</p>''"
    by (rule find_sub_None_sublist) code_simp
  have n2: "\<not> sublist ''<drupal-media'' ''<p>''"
    by (rule find_sub_None_sublist) code_simp
  have n3: "\<not> sublist ''<drupal-media'' ''</drupal-media></p>''"
    by (rule find_sub_None_sublist) code_simp
  have n4: "\<not> sublist ''data-entity-uuid='' ''<drupal-media ''"
    by (rule find_sub_None_sublist) code_simp
  have n5: \<open>\<not> sublist ''data-entity-uuid='' ''<drupal-media data-align="center">''\<close>
    by (rule find_sub_None_sublist) code_simp
  have b1: \<open>CHR ''>'' \<notin> set '' data-entity-uuid="abc-123"''\<close> by simp
  have b2: \<open>CHR ''>'' \<notin> set '' data-entity-uuid="abc-123" data-align="center"''\<close> by simp
  have ws0: "\<forall>c \<in> set []. whitespace c" and ws1: "\<forall>c \<in> set '' ''. whitespace c"
    and nq: "CHR 0x22 \<notin> set ''abc-123''" "CHR 0x22 \<notin> set ''abc-123>''"
    and na: "\<not> whitespace CHR ''a''" "CHR ''a'' \<noteq> CHR 0x22" "CHR ''a'' \<noteq> CHR 0x27"
    and dq: "CHR 0x22 = CHR 0x22 \<or> CHR 0x22 = CHR 0x27"
    by (simp_all add: whitespace_def)
  have c1: "extractEmbeddedMediaUuids ''<p>Hello</p>'' = []"
    by (rule no_tag[OF n1])
  have c3: "extractEmbeddedMediaUuids ''</drupal-media></p>'' = []"
    by (rule no_tag[OF n3])
  have c2: \<open>extractEmbeddedMediaUuids
       (''<p>'' @ ''<drupal-media'' @ '' data-entity-uuid="abc-123"'') = []\<close>
    by (rule tag[OF conjI[OF n2 b1], THEN conjunct1])
  have c4: \<open>parseDrupalMediaTag ''<drupal-media data-align="center">'' = None\<close>
    by (rule no_attr[OF n5])
  have \<open>parseDrupalMediaTag
      (''<drupal-media '' @ ''data-entity-uuid='' @ [] @ CHR 0x22 # ''abc-123'' @ CHR 0x22
         # '' data-align="center">'') = (if ''abc-123'' = [] then None else Some ''abc-123'')\<close>
    by (rule quoted) (intro conjI n4 ws0 dq nq(1))
  then have c5: \<open>parseDrupalMediaTag
      (''<drupal-media'' @ '' data-entity-uuid="abc-123" data-align="center"'' @ ''>'')
      = Some ''abc-123''\<close> by simp
  have \<open>extractEmbeddedMediaUuids
       (''<p>'' @ ''<drupal-media'' @ '' data-entity-uuid="abc-123" data-align="center"'' @ ''>''
          @ ''</drupal-media></p>'') =
       (case parseDrupalMediaTag
               (''<drupal-media'' @ '' data-entity-uuid="abc-123" data-align="center"'' @ ''>'') of
          Some u \<Rightarrow> [u] | None \<Rightarrow> [])
       @ extractEmbeddedMediaUuids ''</drupal-media></p>''\<close>
    by (rule tag[OF conjI[OF n2 b2], THEN conjunct2])
  then have c6: \<open>extractEmbeddedMediaUuids
       (''<p>'' @ ''<drupal-media'' @ '' data-entity-uuid="abc-123" data-align="center"'' @ ''>''
          @ ''</drupal-media></p>'') = [''abc-123'']\<close>
    unfolding c5 c3 by simp
  have c7: "parseDrupalMediaTag (''<drupal-media '' @ ''data-entity-uuid='' @ '' '') = None"
    by (rule no_value) (intro conjI n4 ws1)
  have c8: "parseDrupalMediaTag
      (''<drupal-media '' @ ''data-entity-uuid='' @ [] @ CHR ''a'' # ''bc-123>'') = None"
    by (rule unquoted) (intro conjI n4 ws0 na)
  have c9: "parseDrupalMediaTag
      (''<drupal-media '' @ ''data-entity-uuid='' @ [] @ CHR 0x22 # ''abc-123>'') = None"
    by (rule unclosed) (intro conjI n4 ws0 dq nq(2))
  show ?thesis using c1 c2 c4 c6 c7 c8 c9 by simp
qed

text \<open>
  Claim C9 as the specification words it fails. In the first text a tag that lacks its
  closing bracket is followed by a well-formed tag: the scan takes the bracket of the
  second tag as the end of the first, so the unterminated tag contributes its value and
  the value of the well-formed tag, which the scan finds when that tag stands alone, is
  not extracted.
\<close>

theorem extractEmbeddedMediaUuids_unterminated_counterexample:
  \<open>extractEmbeddedMediaUuids
      ''<drupal-media data-entity-uuid="x" <drupal-media data-entity-uuid="abc"></drupal-media>''
     = [''x'']
   \<and> extractEmbeddedMediaUuids ''<drupal-media data-entity-uuid="abc"></drupal-media>''
     = [''abc'']\<close>
  by code_simp

section \<open>Properties of the image style URL\<close>


















end
